theory Spec2Isabelle
  imports Complex_Main "HOL-Library.AList" "HOL-Library.Sublist"
begin

section \<open>Python floats\<close>

text \<open>
  A Python \<^verbatim>\<open>float\<close> is a binary64 number of IEEE 754: a finite number, a zero with a
  sign, an infinity or a NaN. \<open>Fin r\<close> is the finite float of value \<open>r\<close> (\<open>Fin 0\<close> is
  \<^verbatim>\<open>0.0\<close>), \<open>NegZero\<close> is \<^verbatim>\<open>-0.0\<close>. Every arithmetic operation of Python on floats gives
  the exact result rounded to the nearest binary64 number, a tie going to the number
  with an even significand: this rounding is \<open>round64\<close>.
\<close>

datatype pyfloat = Fin rat | NegZero | PosInf | NegInf | NaN

text \<open>\<open>ilog2 n\<close> is the position of the leading bit of \<open>n\<close>: the floor of its binary logarithm.\<close>

fun ilog2 :: "nat \<Rightarrow> nat" where
  "ilog2 n = (if n < 2 then 0 else Suc (ilog2 (n div 2)))"

declare ilog2.simps [simp del]

definition pow2 :: "int \<Rightarrow> rat" where
  "pow2 e = (if 0 \<le> e then 2 ^ nat e else 1 / 2 ^ nat (- e))"

text \<open>The floor of the binary logarithm of a positive rational.\<close>

definition flog2 :: "rat \<Rightarrow> int" where
  "flog2 a =
     (if 1 \<le> a then int (ilog2 (nat \<lfloor>a\<rfloor>))
      else - int (Suc (ilog2 (nat (\<lceil>1 / a\<rceil> - 1)))))"

text \<open>Rounding to the nearest integer, a tie going to the even one.\<close>

definition round_half_even :: "rat \<Rightarrow> int" where
  "round_half_even q =
     (let f = \<lfloor>q\<rfloor>; d = q - of_int f
      in if d < 1 / 2 then f else if 1 / 2 < d then f + 1 else if even f then f else f + 1)"

text \<open>
  The binary64 number nearest to \<open>x\<close>. A binary64 number has a significand of 53 bits
  and a binary exponent from -1022 to 1023: with \<open>e\<close> the exponent of \<open>x\<close>, not below
  -1022 (smaller numbers are subnormal), the neighbours of \<open>x\<close> are the multiples of
  \<open>2 ^ (e - 52)\<close>. A result of magnitude \<open>2 ^ 1024\<close> is beyond the largest finite number
  and is an infinity; a non-zero \<open>x\<close> that rounds to zero keeps its sign.
\<close>

definition round64 :: "rat \<Rightarrow> pyfloat" where
  "round64 x =
     (if x = 0 then Fin 0
      else let a = \<bar>x\<bar>;
               u = max (flog2 a) (- 1022) - 52;
               n = round_half_even (a / pow2 u)
           in if 971 < u \<or> (u = 971 \<and> n = 2 ^ 53) then (if x < 0 then NegInf else PosInf)
              else if n = 0 then (if x < 0 then NegZero else Fin 0)
              else Fin ((if x < 0 then - 1 else 1) * of_int n * pow2 u))"

fun float_value :: "pyfloat \<Rightarrow> rat" where
  "float_value (Fin r) = r"
| "float_value _ = 0"

fun is_zero :: "pyfloat \<Rightarrow> bool" where
  "is_zero (Fin r) = (r = 0)"
| "is_zero NegZero = True"
| "is_zero _ = False"

fun is_inf :: "pyfloat \<Rightarrow> bool" where
  "is_inf PosInf = True"
| "is_inf NegInf = True"
| "is_inf _ = False"

fun is_neg :: "pyfloat \<Rightarrow> bool" where
  "is_neg (Fin r) = (r < 0)"
| "is_neg NegZero = True"
| "is_neg NegInf = True"
| "is_neg _ = False"

text \<open>
  \<^verbatim>\<open>x + y\<close> on two floats. The sum of two infinities of opposite sign is a NaN; the sum
  of two finite numbers is rounded, and is \<^verbatim>\<open>-0.0\<close> only when both are \<^verbatim>\<open>-0.0\<close>.
\<close>

definition float_add :: "pyfloat \<Rightarrow> pyfloat \<Rightarrow> pyfloat" where
  "float_add x y =
     (if x = NaN \<or> y = NaN then NaN
      else if is_inf x \<and> is_inf y then (if x = y then x else NaN)
      else if is_inf x then x
      else if is_inf y then y
      else if x = NegZero \<and> y = NegZero then NegZero
      else round64 (float_value x + float_value y))"

section \<open>Parsed JSON documents and Python exceptions\<close>

text \<open>
  The normalization code of \<^verbatim>\<open>src/ecoflow.py\<close> works on a document already parsed by
  \<^verbatim>\<open>json_loads\<close>. A parsed document is a \<open>json\<close> value. A Python \<^verbatim>\<open>dict\<close> keeps
  its keys in insertion order, so an object is an association list (its keys are
  pairwise distinct in every parsed document). A Python \<^verbatim>\<open>str\<close> is a \<open>string\<close>, one
  \<open>char\<close> for each code point. A number without fraction or exponent is parsed to a
  Python \<^verbatim>\<open>int\<close>, which has no bound: \<open>JInt\<close>. Any other number is parsed to a
  \<^verbatim>\<open>float\<close>: \<open>JFloat\<close>.
\<close>

datatype json =
    JNull
  | JBool bool
  | JInt int
  | JFloat pyfloat
  | JStr string
  | JArr "json list"
  | JObj "(string \<times> json) list"

datatype error =
    KeyError string
  | IndexError
  | TypeError
  | AttributeError string
  | ZeroDivisionError
  | OverflowError
  | JSONDecodeError
  | StopIteration
  | UnboundLocalError string

text \<open>Sequencing of steps that may raise: the first exception ends the computation.\<close>

definition andthen :: "error + 'a \<Rightarrow> ('a \<Rightarrow> error + 'b) \<Rightarrow> error + 'b" where
  "andthen m f = (case m of Inl e \<Rightarrow> Inl e | Inr x \<Rightarrow> f x)"

text \<open>Decimal rendering of a non-negative integer (\<^verbatim>\<open>"%i" % n\<close>, \<^verbatim>\<open>f"{n}"\<close>).\<close>

fun string_of_nat :: "nat \<Rightarrow> string" where
  "string_of_nat n =
     (if n < 10 then [''0123456789'' ! n]
      else string_of_nat (n div 10) @ [''0123456789'' ! (n mod 10)])"

declare string_of_nat.simps [simp del]

text \<open>\<^verbatim>\<open>x[k]\<close> with a string key: only a dict can be subscripted by a string.\<close>

fun getitem :: "json \<Rightarrow> string \<Rightarrow> error + json" where
  "getitem (JObj kvs) k = (case map_of kvs k of None \<Rightarrow> Inl (KeyError k) | Some v \<Rightarrow> Inr v)"
| "getitem _ k = Inl TypeError"

text \<open>\<^verbatim>\<open>x[i]\<close> with a non-negative integer index.\<close>

fun getindex :: "json \<Rightarrow> nat \<Rightarrow> error + json" where
  "getindex (JArr xs) i = (if i < length xs then Inr (xs ! i) else Inl IndexError)"
| "getindex (JStr s) i = (if i < length s then Inr (JStr [s ! i]) else Inl IndexError)"
| "getindex (JObj kvs) i = Inl (KeyError (string_of_nat i))"
| "getindex _ i = Inl TypeError"

text \<open>\<^verbatim>\<open>x.items()\<close>, \<^verbatim>\<open>x.keys()\<close>, \<^verbatim>\<open>x.copy()\<close> and \<^verbatim>\<open>len(x)\<close>.\<close>

fun items :: "json \<Rightarrow> error + (string \<times> json) list" where
  "items (JObj kvs) = Inr kvs"
| "items _ = Inl (AttributeError ''items'')"

fun keys :: "json \<Rightarrow> error + string list" where
  "keys (JObj kvs) = Inr (map fst kvs)"
| "keys _ = Inl (AttributeError ''keys'')"

fun copy :: "json \<Rightarrow> error + json" where
  "copy (JObj kvs) = Inr (JObj kvs)"
| "copy (JArr xs) = Inr (JArr xs)"
| "copy _ = Inl (AttributeError ''copy'')"

fun len :: "json \<Rightarrow> error + nat" where
  "len (JObj kvs) = Inr (length kvs)"
| "len (JArr xs) = Inr (length xs)"
| "len (JStr s) = Inr (length s)"
| "len _ = Inl TypeError"

text \<open>\<^verbatim>\<open>isinstance(value, dict)\<close>.\<close>

fun is_dict :: "json \<Rightarrow> bool" where
  "is_dict (JObj kvs) = True"
| "is_dict _ = False"

section \<open>Python arithmetic\<close>

text \<open>
  An operation that makes a float from integers raises \<^verbatim>\<open>OverflowError\<close> where its
  rounded result would be an infinity. \<^verbatim>\<open>float(k)\<close>, which is also how an \<^verbatim>\<open>int\<close>
  operand of a float operation is converted, rounds \<open>k\<close>.
\<close>

fun finite_or_overflow :: "pyfloat \<Rightarrow> error + pyfloat" where
  "finite_or_overflow PosInf = Inl OverflowError"
| "finite_or_overflow NegInf = Inl OverflowError"
| "finite_or_overflow f = Inr f"

definition float_of_int :: "int \<Rightarrow> error + pyfloat" where
  "float_of_int k = finite_or_overflow (round64 (of_int k))"

text \<open>
  \<^verbatim>\<open>x / y\<close> on two floats: Python raises \<^verbatim>\<open>ZeroDivisionError\<close> when \<open>y\<close> is a zero, and
  otherwise divides as IEEE 754 does.
\<close>

definition float_div :: "pyfloat \<Rightarrow> pyfloat \<Rightarrow> error + pyfloat" where
  "float_div x y =
     (if is_zero y then Inl ZeroDivisionError
      else Inr (if x = NaN \<or> y = NaN then NaN
                else if is_inf x then
                  (if is_inf y then NaN else if is_neg x = is_neg y then PosInf else NegInf)
                else if is_inf y \<or> is_zero x then
                  (if is_neg x = is_neg y then Fin 0 else NegZero)
                else round64 (float_value x / float_value y)))"

text \<open>
  \<^verbatim>\<open>acc += value\<close> where \<^verbatim>\<open>acc\<close> is a float: an \<^verbatim>\<open>int\<close> is converted to a float first, a
  \<^verbatim>\<open>bool\<close> is the \<^verbatim>\<open>int\<close> 0 or 1, and no other value of a parsed document can be added
  to a float.
\<close>

fun float_iadd :: "pyfloat \<Rightarrow> json \<Rightarrow> error + pyfloat" where
  "float_iadd acc (JFloat f) = Inr (float_add acc f)"
| "float_iadd acc (JInt k) = andthen (float_of_int k) (\<lambda>f. Inr (float_add acc f))"
| "float_iadd acc (JBool b) = Inr (float_add acc (Fin (if b then 1 else 0)))"
| "float_iadd acc _ = Inl TypeError"

text \<open>\<^verbatim>\<open>for value in values: acc += value\<close>.\<close>

fun float_iadd_all :: "pyfloat \<Rightarrow> json list \<Rightarrow> error + pyfloat" where
  "float_iadd_all acc [] = Inr acc"
| "float_iadd_all acc (x # xs) = andthen (float_iadd acc x) (\<lambda>a. float_iadd_all a xs)"

text \<open>
  \<^verbatim>\<open>sum(temp)\<close> starts from the \<^verbatim>\<open>int\<close> 0 and adds the elements from left to right. As
  long as the elements are \<^verbatim>\<open>int\<close> or \<^verbatim>\<open>bool\<close> the sum is an \<^verbatim>\<open>int\<close> and exact; an
  element that is no number raises \<^verbatim>\<open>TypeError\<close>. From the first \<^verbatim>\<open>float\<close> on the sum is
  a float, and how the interpreter adds the rest up is its own matter (from Python 3.12
  on it is a compensated summation, not one rounded addition for each element): this is
  the parameter \<open>float_sum\<close>, called with the integer sum so far and the elements from
  the first float on. Iterating a dict or a str yields strings, which cannot be added
  to 0.
\<close>

datatype number = NInt int | NFloat pyfloat

fun py_sum_list ::
  "(int \<Rightarrow> json list \<Rightarrow> error + pyfloat) \<Rightarrow> int \<Rightarrow> json list \<Rightarrow> error + number" where
  "py_sum_list float_sum acc [] = Inr (NInt acc)"
| "py_sum_list float_sum acc (JInt k # xs) = py_sum_list float_sum (acc + k) xs"
| "py_sum_list float_sum acc (JBool b # xs) =
     py_sum_list float_sum (acc + (if b then 1 else 0)) xs"
| "py_sum_list float_sum acc (JFloat f # xs) =
     andthen (float_sum acc (JFloat f # xs)) (\<lambda>r. Inr (NFloat r))"
| "py_sum_list float_sum acc (x # xs) = Inl TypeError"

fun py_sum :: "(int \<Rightarrow> json list \<Rightarrow> error + pyfloat) \<Rightarrow> json \<Rightarrow> error + number" where
  "py_sum float_sum (JArr xs) = py_sum_list float_sum 0 xs"
| "py_sum float_sum (JObj kvs) = (if kvs = [] then Inr (NInt 0) else Inl TypeError)"
| "py_sum float_sum (JStr s) = (if s = [] then Inr (NInt 0) else Inl TypeError)"
| "py_sum float_sum _ = Inl TypeError"

text \<open>
  \<^verbatim>\<open>s / n\<close> where \<open>n\<close> is a length. The quotient of two \<^verbatim>\<open>int\<close> is the float nearest to
  the exact quotient; a float is divided by the float made from \<open>n\<close>.
\<close>

fun true_div :: "number \<Rightarrow> nat \<Rightarrow> error + pyfloat" where
  "true_div (NInt s) n =
     (if n = 0 then Inl ZeroDivisionError
      else finite_or_overflow (round64 (of_int s / of_nat n)))"
| "true_div (NFloat f) n = andthen (float_of_int (int n)) (\<lambda>d. float_div f d)"

text \<open>\<^verbatim>\<open>sum(temp) / len(temp)\<close>.\<close>

definition mean :: "(int \<Rightarrow> json list \<Rightarrow> error + pyfloat) \<Rightarrow> json \<Rightarrow> error + pyfloat" where
  "mean float_sum temp =
     andthen (py_sum float_sum temp) (\<lambda>s.
     andthen (len temp) (\<lambda>n. true_div s n))"

text \<open>\<^verbatim>\<open>next(iter(ks))\<close>; with \<open>rev ks\<close> it is \<^verbatim>\<open>next(reversed(ks))\<close>.\<close>

fun next_iter :: "string list \<Rightarrow> error + string" where
  "next_iter [] = Inl StopIteration"
| "next_iter (k # ks) = Inr k"

text \<open>Reading an attribute of the instance that may never have been assigned.\<close>

fun getattr :: "'a option \<Rightarrow> string \<Rightarrow> error + 'a" where
  "getattr None a = Inl (AttributeError a)"
| "getattr (Some x) a = Inr x"

text \<open>\<^verbatim>\<open>key.endswith((s1, ..., sn))\<close> and \<^verbatim>\<open>key.startswith(s)\<close>.\<close>

definition endswith :: "string \<Rightarrow> string list \<Rightarrow> bool" where
  "endswith key sufs = list_ex (\<lambda>s. suffix s key) sufs"

definition startswith :: "string \<Rightarrow> string \<Rightarrow> bool" where
  "startswith key s = prefix s key"

text \<open>
  \<^verbatim>\<open>re.compile("mppt.*Code").match(key)\<close>: the match is anchored at the start of the key
  only, and \<^verbatim>\<open>.\<close> matches every character but a newline. \<open>dotstar_then p s\<close> says that
  \<open>s\<close> starts with some newline-free text followed by \<open>p\<close>.
\<close>

fun dotstar_then :: "string \<Rightarrow> string \<Rightarrow> bool" where
  "dotstar_then p [] = (p = [])"
| "dotstar_then p (c # s) = (prefix p (c # s) \<or> (c \<noteq> CHR 0x0A \<and> dotstar_then p s))"

definition re_match_mppt_Code :: "string \<Rightarrow> bool" where
  "re_match_mppt_Code key = (prefix ''mppt'' key \<and> dotstar_then ''Code'' (drop 4 key))"

section \<open>Measurement records and the instance\<close>

record PowerOceanEndPoint =
  internal_unique_id :: string
  serial :: string
  name :: string
  friendly_name :: string
  value' :: json
  unit :: "string option"
  description :: string
  icon :: "string option"

text \<open>
  The sensor dict, in insertion order. \<open>AList.update\<close> is Python's \<^verbatim>\<open>d[k] = v\<close>: an
  existing key keeps its place and gets the new value, a new key goes to the end.
\<close>

type_synonym sensors = "(string \<times> PowerOceanEndPoint) list"

text \<open>\<^verbatim>\<open>dict.update(sensors, data)\<close>.\<close>

definition dict_update :: "sensors \<Rightarrow> sensors \<Rightarrow> sensors" where
  "dict_update sensors data = fold (\<lambda>kv acc. AList.update (fst kv) (snd kv) acc) data sensors"

text \<open>
  The attributes of an \<^verbatim>\<open>Ecoflow\<close> instance that normalization reads and writes.
  \<^verbatim>\<open>__init__\<close> assigns \<^verbatim>\<open>sn\<close> only: the others do not exist until
  \<^verbatim>\<open>_get_serial_numbers\<close> assigns them, and they outlive the call.
\<close>

record Ecoflow =
  sn :: string
  first_sn :: "string option"
  second_sn :: "string option"
  master_sn :: "string option"
  slave_sn :: "string option"
  master_data :: "json option"
  slave_data :: "json option"

definition init :: "string \<Rightarrow> Ecoflow" where
  "init serialnumber =
     \<lparr>sn = serialnumber, first_sn = None, second_sn = None, master_sn = None,
      slave_sn = None, master_data = None, slave_data = None\<rparr>"

section \<open>Unit and description lookups\<close>

definition get_unit :: "string \<Rightarrow> string option" where
  "get_unit key =
     (if endswith key [''pwr'', ''Pwr'', ''Power''] then Some ''W''
      else if endswith key [''amp'', ''Amp''] then Some ''A''
      else if endswith key [''soc'', ''Soc'', ''soh'', ''Soh''] then Some ''%''
      else if endswith key [''vol'', ''Vol''] then Some ''V''
      else if endswith key [''Watth'', ''Energy''] then Some ''Wh''
      else if sublist ''Generation'' key then Some ''kWh''
      else if startswith key ''bpTemp'' then Some [CHR 0xB0, CHR ''C'']
      else None)"

text \<open>
  The source is a run of independent \<^verbatim>\<open>if key == ...\<close> statements over pairwise different
  constants, so at most one of them assigns.
\<close>

definition get_description :: "string \<Rightarrow> string" where
  "get_description key =
     (if key = ''sysLoadPwr'' then ''Hausnetz''
      else if key = ''sysGridPwr'' then ''Stromnetz''
      else if key = ''mpptPwr'' then ''Solarertrag''
      else if key = ''bpPwr'' then ''Batterieleistung''
      else if key = ''bpSoc'' then ''Ladezustand der Batterie''
      else if key = ''online'' then ''Online''
      else if key = ''systemName'' then ''System Name''
      else if key = ''createTime'' then ''Installations Datum''
      else if key = ''bpVol'' then ''Batteriespannung''
      else if key = ''bpAmp'' then ''Batteriestrom''
      else if key = ''bpCycles'' then ''Ladezyklen''
      else if key = ''bpTemp'' then ''Temperatur der Batteriezellen''
      else key)"

section \<open>Root extractor\<close>

definition sens_select_data :: "string list" where
  "sens_select_data =
     [''sysLoadPwr'', ''sysGridPwr'', ''mpptPwr'', ''bpPwr'', ''online'',
      ''todayElectricityGeneration'', ''monthElectricityGeneration'',
      ''yearElectricityGeneration'', ''totalElectricityGeneration'',
      ''systemName'', ''createTime'']"

text \<open>One turn of the loop of \<^verbatim>\<open>__get_sensors_data\<close> over \<^verbatim>\<open>d.items()\<close>.\<close>

definition data_step :: "Ecoflow \<Rightarrow> string \<times> json \<Rightarrow> sensors \<Rightarrow> sensors" where
  "data_step self kv sensors =
     (let key = fst kv; val = snd kv in
      if key \<in> set sens_select_data then
        (if is_dict val then sensors
         else
           let unique_id = sn self @ ''_'' @ key;
               special_icon = (if key = ''mpptPwr'' then Some ''mdi:solar-power'' else None)
           in AList.update unique_id
                \<lparr>internal_unique_id = unique_id,
                 serial = sn self,
                 name = sn self @ ''_'' @ key,
                 friendly_name = key,
                 value' = val,
                 unit = get_unit key,
                 description = get_description key,
                 icon = special_icon\<rparr> sensors)
      else sensors)"

definition get_sensors_data :: "Ecoflow \<Rightarrow> json \<Rightarrow> error + sensors" where
  "get_sensors_data self response =
     andthen (getitem response ''data'') (\<lambda>data.
     andthen (copy data) (\<lambda>d.
     andthen (items d) (\<lambda>its.
       Inr (fold (data_step self) its []))))"

section \<open>Change-report extractor\<close>

definition ems_change_select :: "string list" where
  "ems_change_select =
     [''bpTotalChgEnergy'', ''bpTotalDsgEnergy'', ''bpSoc'', ''bpOnlineSum'',
      ''emsCtrlLedBright'', ''emsWordMode'']"

definition ems_change_uid :: "string \<Rightarrow> string \<Rightarrow> string" where
  "ems_change_uid inverter_sn key = inverter_sn @ ''_'' @ ''JTS1_EMS_CHANGE_REPORT'' @ ''_'' @ key"

definition ems_change_record :: "string \<Rightarrow> string \<Rightarrow> string \<Rightarrow> json \<Rightarrow> PowerOceanEndPoint" where
  "ems_change_record inverter_sn inverter_string key val =
     \<lparr>internal_unique_id = ems_change_uid inverter_sn key,
      serial = inverter_sn,
      name = inverter_sn @ ''_'' @ key,
      friendly_name = key @ inverter_string,
      value' = val,
      unit = get_unit key,
      description = get_description key,
      icon = None\<rparr>"

text \<open>One turn of the loop of \<^verbatim>\<open>__get_sensors_ems_change\<close> over \<^verbatim>\<open>d.items()\<close>.\<close>

definition ems_change_step ::
  "string list \<Rightarrow> string \<Rightarrow> string \<Rightarrow> string \<times> json \<Rightarrow> sensors \<Rightarrow> sensors" where
  "ems_change_step sens_select inverter_sn inverter_string kv data =
     (let key = fst kv; val = snd kv in
      if key \<in> set sens_select then
        AList.update (ems_change_uid inverter_sn key)
          (ems_change_record inverter_sn inverter_string key val) data
      else data)"

definition get_sensors_ems_change ::
  "json \<Rightarrow> sensors \<Rightarrow> string \<Rightarrow> string \<Rightarrow> error + sensors" where
  "get_sensors_ems_change inverter_dataset sensors inverter_sn inverter_string =
     andthen (getitem inverter_dataset ''JTS1_EMS_CHANGE_REPORT'') (\<lambda>d.
     andthen (keys d) (\<lambda>ks.
       let wfc = filter re_match_mppt_Code ks;
           sens_select = ems_change_select @ wfc
       in andthen (items d) (\<lambda>its.
            let data = fold (ems_change_step sens_select inverter_sn inverter_string) its []
            in Inr (dict_update sensors data))))"

section \<open>Battery-pack extractor\<close>

definition bat_sens_select :: "string list" where
  "bat_sens_select =
     [''bpPwr'', ''bpSoc'', ''bpSoh'', ''bpVol'', ''bpAmp'', ''bpCycles'', ''bpSysState'',
      ''bpRemainWatth'']"

definition battery_uid :: "string \<Rightarrow> string \<Rightarrow> string \<Rightarrow> string" where
  "battery_uid inverter_sn bat key =
     inverter_sn @ ''_'' @ ''JTS1_BP_STA_REPORT'' @ ''_'' @ bat @ ''_'' @ key"

text \<open>\<^verbatim>\<open>name = prefix + "%i_" % (ibat + 1)\<close>.\<close>

definition bpack_name :: "nat \<Rightarrow> string" where
  "bpack_name ibat = ''bpack'' @ string_of_nat (ibat + 1) @ ''_''"

text \<open>One turn of the inner loop of \<^verbatim>\<open>__get_sensors_battery\<close> over \<^verbatim>\<open>d_bat.items()\<close>.\<close>

definition battery_step ::
  "string \<Rightarrow> string \<Rightarrow> string \<Rightarrow> string \<Rightarrow> string \<times> json \<Rightarrow> sensors \<Rightarrow> sensors" where
  "battery_step inverter_sn inverter_string bat name0 kv data =
     (let key = fst kv; val = snd kv in
      if key \<in> set bat_sens_select then
        AList.update (battery_uid inverter_sn bat key)
          \<lparr>internal_unique_id = battery_uid inverter_sn bat key,
           serial = inverter_sn,
           name = inverter_sn @ ''_'' @ name0 @ key,
           friendly_name = name0 @ key @ inverter_string,
           value' = val,
           unit = get_unit key,
           description = name0 @ get_description key,
           icon = (if key = ''bpAmp'' then Some ''mdi:current-dc'' else None)\<rparr> data
      else data)"

text \<open>The derived record: the mean temperature of the cells of one pack.\<close>

definition bpTemp_record ::
  "string \<Rightarrow> string \<Rightarrow> string \<Rightarrow> string \<Rightarrow> pyfloat \<Rightarrow> PowerOceanEndPoint" where
  "bpTemp_record inverter_sn inverter_string bat name0 v =
     \<lparr>internal_unique_id = battery_uid inverter_sn bat ''bpTemp'',
      serial = inverter_sn,
      name = inverter_sn @ ''_'' @ name0 @ ''bpTemp'',
      friendly_name = name0 @ ''bpTemp'' @ inverter_string,
      value' = JFloat v,
      unit = get_unit ''bpTemp'',
      description = name0 @ get_description ''bpTemp'',
      icon = None\<rparr>"

text \<open>
  \<^verbatim>\<open>json_loads\<close> belongs to Home Assistant, not to this repository: it is the
  parameter \<open>json_loads\<close>, which gives \<open>None\<close> where the library raises its decode
  error. Only a \<^verbatim>\<open>str\<close> can be decoded; any other argument raises the same error.
\<close>

fun loads :: "(string \<Rightarrow> json option) \<Rightarrow> json \<Rightarrow> error + json" where
  "loads json_loads (JStr s) =
     (case json_loads s of None \<Rightarrow> Inl JSONDecodeError | Some v \<Rightarrow> Inr v)"
| "loads json_loads _ = Inl JSONDecodeError"

text \<open>
  The loop of \<^verbatim>\<open>__get_sensors_battery\<close> over \<^verbatim>\<open>enumerate(batts)\<close>, from index \<open>ibat\<close>
  on. Nothing catches an exception inside it: the first one ends the whole loop.
\<close>

fun battery_loop ::
  "(string \<Rightarrow> json option) \<Rightarrow> (int \<Rightarrow> json list \<Rightarrow> error + pyfloat) \<Rightarrow> json \<Rightarrow> string \<Rightarrow> string \<Rightarrow> nat \<Rightarrow> string list \<Rightarrow> sensors
     \<Rightarrow> error + sensors" where
  "battery_loop json_loads float_sum d inverter_sn inverter_string ibat [] data = Inr data"
| "battery_loop json_loads float_sum d inverter_sn inverter_string ibat (bat # batts) data =
     (let name0 = bpack_name ibat in
      andthen (getitem d bat) (\<lambda>raw.
      andthen (loads json_loads raw) (\<lambda>d_bat.
      andthen (items d_bat) (\<lambda>its.
        let data1 = fold (battery_step inverter_sn inverter_string bat name0) its data in
        andthen (getitem d_bat ''bpTemp'') (\<lambda>temp.
        andthen (mean float_sum temp) (\<lambda>v.
          battery_loop json_loads float_sum d inverter_sn inverter_string (ibat + 1) batts
            (AList.update (battery_uid inverter_sn bat ''bpTemp'')
               (bpTemp_record inverter_sn inverter_string bat name0 v) data1)))))))"

definition get_sensors_battery ::
  "(string \<Rightarrow> json option) \<Rightarrow> (int \<Rightarrow> json list \<Rightarrow> error + pyfloat) \<Rightarrow> json \<Rightarrow> sensors \<Rightarrow> string \<Rightarrow> string \<Rightarrow> error + sensors" where
  "get_sensors_battery json_loads float_sum inverter_data sensors inverter_sn inverter_string =
     andthen (getitem inverter_data ''JTS1_BP_STA_REPORT'') (\<lambda>d.
     andthen (keys d) (\<lambda>ks.
       let batts = filter (\<lambda>s. length s > 12) ks in
       andthen (battery_loop json_loads float_sum d inverter_sn inverter_string 0 batts []) (\<lambda>data.
         Inr (dict_update sensors data))))"

section \<open>Heartbeat extractor\<close>

definition heartbeat_select :: "string list" where
  "heartbeat_select =
     [''bpRemainWatth'', ''emsBpAliveNum'', ''emsBpPower'', ''pcsActPwr'', ''pcsMeterPower'']"

definition heartbeat_uid :: "string \<Rightarrow> string \<Rightarrow> string" where
  "heartbeat_uid inverter_sn path = inverter_sn @ ''_'' @ ''JTS1_EMS_HEARTBEAT'' @ ''_'' @ path"

text \<open>
  The loop variable \<^verbatim>\<open>key\<close> of \<^verbatim>\<open>__get_sensors_ems_heartbeat\<close> is read after the loops, so
  the loops hand on its last binding: \<open>None\<close> while no loop has bound it.
\<close>

definition last_key :: "string option \<Rightarrow> (string \<times> json) list \<Rightarrow> string option" where
  "last_key key its = (if its = [] then key else Some (fst (last its)))"

fun local_var :: "string option \<Rightarrow> string \<Rightarrow> error + string" where
  "local_var None v = Inl (UnboundLocalError v)"
| "local_var (Some x) v = Inr x"

text \<open>One turn of the first loop, over \<^verbatim>\<open>d.items()\<close>.\<close>

definition heartbeat_step :: "string \<Rightarrow> string \<Rightarrow> string \<times> json \<Rightarrow> sensors \<Rightarrow> sensors" where
  "heartbeat_step inverter_sn inverter_string kv data =
     (let key = fst kv; val = snd kv in
      if key \<in> set heartbeat_select then
        AList.update (heartbeat_uid inverter_sn key)
          \<lparr>internal_unique_id = heartbeat_uid inverter_sn key,
           serial = inverter_sn,
           name = inverter_sn @ ''_'' @ key,
           friendly_name = key @ inverter_string,
           value' = val,
           unit = get_unit key,
           description = get_description key,
           icon = None\<rparr> data
      else data)"

text \<open>One turn of the loop over the fields of one phase.\<close>

definition phase_step ::
  "string \<Rightarrow> string \<Rightarrow> string \<Rightarrow> string \<times> json \<Rightarrow> sensors \<Rightarrow> sensors" where
  "phase_step inverter_sn inverter_string phase kv data =
     (let key = fst kv; val = snd kv; name0 = phase @ ''_'' @ key in
      AList.update (heartbeat_uid inverter_sn name0)
        \<lparr>internal_unique_id = heartbeat_uid inverter_sn name0,
         serial = inverter_sn,
         name = inverter_sn @ ''_'' @ name0,
         friendly_name = name0 @ inverter_string,
         value' = val,
         unit = get_unit key,
         description = get_description key,
         icon = None\<rparr> data)"

fun phases_loop ::
  "json \<Rightarrow> string \<Rightarrow> string \<Rightarrow> string list \<Rightarrow> sensors \<times> string option
     \<Rightarrow> error + sensors \<times> string option" where
  "phases_loop d inverter_sn inverter_string [] st = Inr st"
| "phases_loop d inverter_sn inverter_string (phase # phases) st =
     andthen (getitem d phase) (\<lambda>pd.
     andthen (items pd) (\<lambda>its.
       phases_loop d inverter_sn inverter_string phases
         (fold (phase_step inverter_sn inverter_string phase) its (fst st),
          last_key (snd st) its)))"

text \<open>
  The record of one field of one PV string. Its \<^verbatim>\<open>serial\<close> is \<^verbatim>\<open>self.sn\<close>, where every
  other record of the function takes \<^verbatim>\<open>inverter_sn\<close>. The icon is set by two \<^verbatim>\<open>if\<close>
  statements in a row, on \<^verbatim>\<open>amp\<close> and then on \<^verbatim>\<open>pwr\<close>: the later one wins.
\<close>

definition mpptPv_record ::
  "Ecoflow \<Rightarrow> string \<Rightarrow> string \<Rightarrow> string \<Rightarrow> string \<Rightarrow> json \<Rightarrow> PowerOceanEndPoint" where
  "mpptPv_record self inverter_sn inverter_string mpptpv key val =
     \<lparr>internal_unique_id = heartbeat_uid inverter_sn (''mpptHeartBeat_'' @ mpptpv @ ''_'' @ key),
      serial = sn self,
      name = inverter_sn @ ''_'' @ mpptpv @ ''_'' @ key,
      friendly_name = mpptpv @ ''_'' @ key @ inverter_string,
      value' = val,
      unit = get_unit key,
      description = get_description key,
      icon = (if endswith key [''pwr''] then Some ''mdi:solar-power''
              else if endswith key [''amp''] then Some ''mdi:current-dc''
              else None)\<rparr>"

text \<open>
  The loop over the fields of one PV string, with the running sum \<^verbatim>\<open>mpptPv_sum\<close>, a
  float from its start at \<^verbatim>\<open>0.0\<close>: \<^verbatim>\<open>mpptPv_sum += value\<close> raises when the value of
  \<^verbatim>\<open>pwr\<close> is not a number, or is an \<^verbatim>\<open>int\<close> too large for a float.
\<close>

fun mpptPv_fields ::
  "Ecoflow \<Rightarrow> string \<Rightarrow> string \<Rightarrow> string \<Rightarrow> (string \<times> json) list
     \<Rightarrow> sensors \<times> pyfloat \<Rightarrow> error + sensors \<times> pyfloat" where
  "mpptPv_fields self inverter_sn inverter_string mpptpv [] st = Inr st"
| "mpptPv_fields self inverter_sn inverter_string mpptpv (kv # its) st =
     (let key = fst kv; val = snd kv;
          data1 = AList.update
                    (heartbeat_uid inverter_sn (''mpptHeartBeat_'' @ mpptpv @ ''_'' @ key))
                    (mpptPv_record self inverter_sn inverter_string mpptpv key val) (fst st)
      in if key = ''pwr'' then
           andthen (float_iadd (snd st) val) (\<lambda>r.
             mpptPv_fields self inverter_sn inverter_string mpptpv its (data1, r))
         else mpptPv_fields self inverter_sn inverter_string mpptpv its (data1, snd st))"

text \<open>
  The loop over \<^verbatim>\<open>enumerate(mpptpvs)\<close>: string \<open>i\<close> (from 0) is named
  \<^verbatim>\<open>mpptPv{i+1}\<close>, and \<^verbatim>\<open>d["mpptHeartBeat"][0]["mpptPv"][i]\<close> is looked up again in every
  turn, as in the source. The state is the dict, the running sum and the last \<^verbatim>\<open>key\<close>.
\<close>

fun mpptPv_loop ::
  "Ecoflow \<Rightarrow> json \<Rightarrow> string \<Rightarrow> string \<Rightarrow> nat list
     \<Rightarrow> sensors \<times> pyfloat \<times> string option
     \<Rightarrow> error + sensors \<times> pyfloat \<times> string option" where
  "mpptPv_loop self d inverter_sn inverter_string [] st = Inr st"
| "mpptPv_loop self d inverter_sn inverter_string (i # is) st =
     andthen (getitem d ''mpptHeartBeat'') (\<lambda>hb.
     andthen (getindex hb 0) (\<lambda>hb0.
     andthen (getitem hb0 ''mpptPv'') (\<lambda>pv.
     andthen (getindex pv i) (\<lambda>pvi.
     andthen (items pvi) (\<lambda>its.
     andthen (mpptPv_fields self inverter_sn inverter_string
                (''mpptPv'' @ string_of_nat (i + 1)) its (fst st, fst (snd st))) (\<lambda>r.
       mpptPv_loop self d inverter_sn inverter_string is
         (fst r, snd r, last_key (snd (snd st)) its)))))))"

definition pwrTotal_record ::
  "string \<Rightarrow> string \<Rightarrow> pyfloat \<Rightarrow> string \<Rightarrow> PowerOceanEndPoint" where
  "pwrTotal_record inverter_sn inverter_string mpptPv_sum key =
     \<lparr>internal_unique_id = heartbeat_uid inverter_sn (''mpptHeartBeat_'' @ ''mpptPv_pwrTotal''),
      serial = inverter_sn,
      name = inverter_sn @ ''_'' @ ''mpptPv_pwrTotal'',
      friendly_name = ''mpptPv_pwrTotal'' @ inverter_string,
      value' = JFloat mpptPv_sum,
      unit = get_unit key,
      description = ''Solarertrag aller Strings'',
      icon = Some ''mdi:solar-power''\<rparr>"

definition get_sensors_ems_heartbeat ::
  "Ecoflow \<Rightarrow> json \<Rightarrow> sensors \<Rightarrow> string \<Rightarrow> string \<Rightarrow> error + sensors" where
  "get_sensors_ems_heartbeat self inverter_data sensors inverter_sn inverter_string =
     andthen (getitem inverter_data ''JTS1_EMS_HEARTBEAT'') (\<lambda>d.
     andthen (items d) (\<lambda>its.
     andthen (phases_loop d inverter_sn inverter_string
                [''pcsAPhase'', ''pcsBPhase'', ''pcsCPhase'']
                (fold (heartbeat_step inverter_sn inverter_string) its [], last_key None its))
       (\<lambda>st1.
     andthen (getitem d ''mpptHeartBeat'') (\<lambda>hb.
     andthen (getindex hb 0) (\<lambda>hb0.
     andthen (getitem hb0 ''mpptPv'') (\<lambda>pv.
     andthen (len pv) (\<lambda>n_strings.
     andthen (mpptPv_loop self d inverter_sn inverter_string [0..<n_strings]
                (fst st1, Fin 0, snd st1)) (\<lambda>st2.
     andthen (local_var (snd (snd st2)) ''key'') (\<lambda>key.
       let data = AList.update
                    (heartbeat_uid inverter_sn (''mpptHeartBeat_'' @ ''mpptPv_pwrTotal''))
                    (pwrTotal_record inverter_sn inverter_string (fst (snd st2)) key)
                    (fst st2)
       in Inr (dict_update sensors data))))))))))"

section \<open>Topology resolver\<close>

text \<open>
  \<^verbatim>\<open>_get_serial_numbers\<close> of \<^verbatim>\<open>src/ecoflow.py\<close>. Its first part only logs: every
  statement of it that can raise is inside a bare \<^verbatim>\<open>try ... except:\<close>, but for
  \<^verbatim>\<open>response.keys()\<close> and \<^verbatim>\<open>response.items()\<close>. The lookups that follow are outside any
  \<^verbatim>\<open>try\<close>, so each of them raises when its key is missing: \<^verbatim>\<open>quota\<close>, \<^verbatim>\<open>parallel\<close>
  and the two serial numbers written into the source.
\<close>

definition get_serial_numbers :: "Ecoflow \<Rightarrow> json \<Rightarrow> error + Ecoflow \<times> nat" where
  "get_serial_numbers self response =
     andthen (keys response) (\<lambda>response_keys.
     andthen (getitem response ''data'') (\<lambda>p_data.
     andthen (keys p_data) (\<lambda>p_data_keys.
     andthen (getitem p_data ''quota'') (\<lambda>p_data_quota.
     andthen (keys p_data_quota) (\<lambda>quota_keys.
     andthen (getitem p_data ''parallel'') (\<lambda>p_data_parallel.
     andthen (keys p_data_parallel) (\<lambda>parallel_keys.
     andthen (getitem p_data_parallel ''J32EZEH4ZG3S0104'') (\<lambda>p_data_parallel_master.
     andthen (keys p_data_parallel_master) (\<lambda>master_keys.
     andthen (getitem p_data_parallel ''J32EZEH4ZG3S0042'') (\<lambda>p_data_parallel_slave.
     andthen (keys p_data_parallel_slave) (\<lambda>slave_keys.
       if ''parallel'' \<in> set p_data_keys then
         andthen (getitem p_data ''parallel'') (\<lambda>p.
         andthen (keys p) (\<lambda>keys_2.
         andthen (next_iter keys_2) (\<lambda>first.
         andthen (next_iter (rev keys_2)) (\<lambda>second.
         andthen (getitem p first) (\<lambda>first_data.
         andthen (getitem p second) (\<lambda>second_data.
           if first = sn self then
             Inr (self\<lparr>first_sn := Some first, second_sn := Some second,
                       master_sn := Some first, slave_sn := Some second,
                       master_data := Some first_data, slave_data := Some second_data\<rparr>,
                  length keys_2)
           else
             Inr (self\<lparr>first_sn := Some first, second_sn := Some second,
                       master_sn := Some second, slave_sn := Some first,
                       master_data := Some second_data, slave_data := Some first_data\<rparr>,
                  length keys_2)))))))
       else
         andthen (getitem p_data ''quota'') (\<lambda>quota.
           Inr (self\<lparr>master_data := Some quota\<rparr>, 0)))))))))))))"

text \<open>
  \<^verbatim>\<open>_get_serial_numbers\<close> of the earlier revision,
  \<^verbatim>\<open>src/custom_components/powerocean/ecoflow.py\<close>: no lookup of fixed serial numbers,
  and no comparison with \<^verbatim>\<open>self.sn\<close>. Its loop over \<^verbatim>\<open>p.keys()\<close> calls \<^verbatim>\<open>.keys()\<close> on
  every value of \<^verbatim>\<open>parallel\<close>.
\<close>

fun all_have_keys :: "(string \<times> json) list \<Rightarrow> error + unit" where
  "all_have_keys [] = Inr ()"
| "all_have_keys (kv # kvs) = andthen (keys (snd kv)) (\<lambda>keys_3. all_have_keys kvs)"

definition get_serial_numbers_cc :: "Ecoflow \<Rightarrow> json \<Rightarrow> error + Ecoflow \<times> nat" where
  "get_serial_numbers_cc self response =
     andthen (getitem response ''data'') (\<lambda>p_data.
     andthen (keys p_data) (\<lambda>p_data_keys.
       if ''parallel'' \<in> set p_data_keys then
         andthen (getitem p_data ''parallel'') (\<lambda>p.
         andthen (keys p) (\<lambda>keys_2.
         andthen (items p) (\<lambda>its.
         andthen (all_have_keys its) (\<lambda>u.
         andthen (next_iter keys_2) (\<lambda>first.
         andthen (next_iter (rev keys_2)) (\<lambda>second.
         andthen (getitem p second) (\<lambda>second_data.
         andthen (getitem p first) (\<lambda>first_data.
           Inr (self\<lparr>slave_sn := Some first, master_sn := Some second,
                     master_data := Some second_data, slave_data := Some first_data\<rparr>,
                length keys_2)))))))))
       else
         andthen (getitem p_data ''quota'') (\<lambda>quota.
           Inr (self\<lparr>master_data := Some quota\<rparr>, 0))))"

section \<open>Assembly\<close>

text \<open>
  \<^verbatim>\<open>_get_sensors\<close> of \<^verbatim>\<open>src/ecoflow.py\<close>. The result \<open>None\<close> is the bare \<^verbatim>\<open>return\<close> of
  the branch that is neither dual nor single. Nothing in it, nor in \<^verbatim>\<open>fetch_data\<close>
  around it, catches what the resolver or an extractor raises.
\<close>

definition get_sensors ::
  "(string \<Rightarrow> json option) \<Rightarrow> (int \<Rightarrow> json list \<Rightarrow> error + pyfloat) \<Rightarrow> Ecoflow \<Rightarrow> json \<Rightarrow> error + Ecoflow \<times> sensors option" where
  "get_sensors json_loads float_sum self0 response =
     andthen (get_serial_numbers self0 response) (\<lambda>res.
       let self = fst res; serials = snd res in
       andthen (if serials = 2
                then andthen (getattr (master_sn self) ''master_sn'') (\<lambda>m.
                     andthen (getattr (slave_sn self) ''slave_sn'') (\<lambda>s. Inr (Some ''_master'')))
                else if serials = 0 then Inr (Some [])
                else Inr None) (\<lambda>branch.
       case branch of
         None \<Rightarrow> Inr (self, None)
       | Some master_string \<Rightarrow>
         andthen (get_sensors_data self response) (\<lambda>sensors.
         andthen (getattr (master_data self) ''master_data'') (\<lambda>m_data.
         andthen (getattr (master_sn self) ''master_sn'') (\<lambda>m_sn.
         andthen (get_sensors_ems_change m_data sensors m_sn master_string) (\<lambda>sensors.
         andthen (get_sensors_battery json_loads float_sum m_data sensors m_sn master_string) (\<lambda>sensors.
         andthen (get_sensors_ems_heartbeat self m_data sensors m_sn master_string) (\<lambda>sensors.
           if serials = 2 then
             andthen (getattr (slave_data self) ''slave_data'') (\<lambda>s_data.
             andthen (getattr (slave_sn self) ''slave_sn'') (\<lambda>s_sn.
             andthen (get_sensors_ems_change s_data sensors s_sn ''_slave'') (\<lambda>sensors.
             andthen (get_sensors_battery json_loads float_sum s_data sensors s_sn ''_slave'') (\<lambda>sensors.
             andthen (get_sensors_ems_heartbeat self s_data sensors s_sn ''_slave'') (\<lambda>sensors.
               Inr (self, Some sensors))))))
           else Inr (self, Some sensors)))))))))"
section \<open>Properties of a sensor dict\<close>

text \<open>Every record is stored under its own \<^verbatim>\<open>internal_unique_id\<close>.\<close>

definition uid_keyed :: "sensors \<Rightarrow> bool" where
  "uid_keyed m = list_all (\<lambda>kv. internal_unique_id (snd kv) = fst kv) m"

section \<open>Concrete documents\<close>

text \<open>
  A dual response whose two inverters have serial numbers other than the two written
  into \<^verbatim>\<open>_get_serial_numbers\<close>, a response with an empty \<^verbatim>\<open>parallel\<close> mapping, and a
  response of a single inverter.
\<close>

definition response_two_keys :: json where
  "response_two_keys =
     JObj [(''data'', JObj
       [(''sysLoadPwr'', JInt 500),
        (''quota'', JObj []),
        (''parallel'', JObj [(''J32EZEH4ZG3S0001'', JObj []), (''J32EZEH4ZG3S0002'', JObj [])])])]"

definition response_no_keys :: json where
  "response_no_keys =
     JObj [(''data'', JObj
       [(''sysLoadPwr'', JInt 500), (''quota'', JObj []), (''parallel'', JObj [])])]"

definition response_single :: json where
  "response_single =
     JObj [(''data'', JObj [(''sysLoadPwr'', JInt 500), (''quota'', JObj [])])]"

text \<open>
  The text of one battery pack and a decoder that knows this text only. A heartbeat
  report with three phases and one PV string for each given power, an inverter root
  made of three reports, and a dual response over the two serial numbers that
  \<^verbatim>\<open>_get_serial_numbers\<close> looks up.
\<close>

definition pack_text :: string where
  "pack_text = ''{'' @ [CHR 0x22] @ ''bpTemp'' @ [CHR 0x22] @ '':[20,22,24]}''"

definition json_loads_fixture :: "string \<Rightarrow> json option" where
  "json_loads_fixture s =
     (if s = pack_text then Some (JObj [(''bpTemp'', JArr [JInt 20, JInt 22, JInt 24])])
      else None)"

definition heartbeat_fixture :: "int list \<Rightarrow> (string \<times> json) list" where
  "heartbeat_fixture ps =
     [(''pcsAPhase'', JObj [(''vol'', JInt 230)]),
      (''pcsBPhase'', JObj []),
      (''pcsCPhase'', JObj []),
      (''mpptHeartBeat'', JArr [JObj [(''mpptPv'', JArr (map (\<lambda>p. JObj [(''pwr'', JInt p)]) ps))]])]"

definition inverter_root ::
  "(string \<times> json) list \<Rightarrow> (string \<times> json) list \<Rightarrow> int list \<Rightarrow> (string \<times> json) list" where
  "inverter_root change bp ps =
     [(''JTS1_EMS_CHANGE_REPORT'', JObj change),
      (''JTS1_BP_STA_REPORT'', JObj bp),
      (''JTS1_EMS_HEARTBEAT'', JObj (heartbeat_fixture ps))]"

definition dual_response :: "json \<Rightarrow> json \<Rightarrow> json" where
  "dual_response m s =
     JObj [(''data'', JObj
       [(''sysLoadPwr'', JInt 500),
        (''quota'', JObj []),
        (''parallel'', JObj [(''J32EZEH4ZG3S0104'', m), (''J32EZEH4ZG3S0042'', s)])])]"

definition response_dual :: json where
  "response_dual =
     dual_response (JObj (inverter_root [(''bpSoc'', JInt 80)] [] []))
                   (JObj (inverter_root [] [] [7]))"

text \<open>
  The instance configured with the first of these serial numbers, after the resolver
  has run on a dual response with the report roots \<open>m\<close> and \<open>s\<close>.
\<close>

definition resolved :: "json \<Rightarrow> json \<Rightarrow> Ecoflow" where
  "resolved m s =
     \<lparr>sn = ''J32EZEH4ZG3S0104'',
      first_sn = Some ''J32EZEH4ZG3S0104'', second_sn = Some ''J32EZEH4ZG3S0042'',
      master_sn = Some ''J32EZEH4ZG3S0104'', slave_sn = Some ''J32EZEH4ZG3S0042'',
      master_data = Some m, slave_data = Some s\<rparr>"

definition instance_dual :: Ecoflow where
  "instance_dual =
     resolved (JObj (inverter_root [(''bpSoc'', JInt 80)] [] [])) (JObj (inverter_root [] [] [7]))"

text \<open>
  A dual response whose master root has no \<^verbatim>\<open>JTS1_BP_STA_REPORT\<close>, and one whose master
  has two battery packs, the second with a text that is not JSON.
\<close>

definition reports_without_bp :: "(string \<times> json) list" where
  "reports_without_bp =
     [(''JTS1_EMS_CHANGE_REPORT'', JObj [(''bpSoc'', JInt 80)]),
      (''JTS1_EMS_HEARTBEAT'', JObj (heartbeat_fixture []))]"

definition response_missing_report :: json where
  "response_missing_report =
     dual_response (JObj reports_without_bp) (JObj (inverter_root [] [] [7]))"

definition packs_second_bad :: "(string \<times> json) list" where
  "packs_second_bad =
     [(''HJ32ZDH4ZF7E0011'', JStr pack_text), (''HJ32ZDH4ZF7E0012'', JStr ''{bpTemp'')]"

definition response_bad_pack :: json where
  "response_bad_pack =
     dual_response (JObj (inverter_root [] packs_second_bad [])) (JObj (inverter_root [] [] [7]))"

text \<open>A change report with an allow-listed key, a fault code and a key of neither kind.\<close>

definition change_fixture :: "(string \<times> json) list" where
  "change_fixture = [(''bpSoc'', JInt 80), (''mppt1FaultCode'', JInt 0), (''sysGridSta'', JInt 1)]"


text \<open>
  A float summation for the concrete documents: the integer sum so far is converted,
  then every element is added by one rounded addition, from left to right.
\<close>

definition sum_left_to_right :: "int \<Rightarrow> json list \<Rightarrow> error + pyfloat" where
  "sum_left_to_right acc xs = andthen (float_of_int acc) (\<lambda>a. float_iadd_all a xs)"




text \<open>
  A heartbeat report without the three phase objects, and one whose two PV strings
  report the floats \<^verbatim>\<open>0.1\<close> and \<^verbatim>\<open>0.2\<close>, given by their exact values.
\<close>

definition heartbeat_no_phases :: "(string \<times> json) list" where
  "heartbeat_no_phases =
     [(''mpptHeartBeat'', JArr [JObj [(''mpptPv'', JArr [JObj [(''pwr'', JInt 100)]])]])]"

definition float_tenth :: pyfloat where
  "float_tenth = Fin (3602879701896397 / 36028797018963968)"

definition float_fifth :: pyfloat where
  "float_fifth = Fin (3602879701896397 / 18014398509481984)"

definition heartbeat_floats :: "(string \<times> json) list" where
  "heartbeat_floats =
     [(''pcsAPhase'', JObj []),
      (''pcsBPhase'', JObj []),
      (''pcsCPhase'', JObj []),
      (''mpptHeartBeat'', JArr [JObj [(''mpptPv'',
         JArr [JObj [(''pwr'', JFloat float_tenth)], JObj [(''pwr'', JFloat float_fifth)]])]])]"

text \<open>The sensor dict that the code assembles from \<open>response_dual\<close>.\<close>

definition sensors_dual :: sensors where
  "sensors_dual =
     [(''J32EZEH4ZG3S0104_sysLoadPwr'',
         \<lparr>internal_unique_id = ''J32EZEH4ZG3S0104_sysLoadPwr'',
          serial = ''J32EZEH4ZG3S0104'',
          name = ''J32EZEH4ZG3S0104_sysLoadPwr'',
          friendly_name = ''sysLoadPwr'',
          value' = JInt 500,
          unit = Some ''W'',
          description = ''Hausnetz'',
          icon = None\<rparr>),
      (''J32EZEH4ZG3S0104_JTS1_EMS_CHANGE_REPORT_bpSoc'',
         \<lparr>internal_unique_id = ''J32EZEH4ZG3S0104_JTS1_EMS_CHANGE_REPORT_bpSoc'',
          serial = ''J32EZEH4ZG3S0104'',
          name = ''J32EZEH4ZG3S0104_bpSoc'',
          friendly_name = ''bpSoc_master'',
          value' = JInt 80,
          unit = Some ''%'',
          description = ''Ladezustand der Batterie'',
          icon = None\<rparr>),
      (''J32EZEH4ZG3S0104_JTS1_EMS_HEARTBEAT_pcsAPhase_vol'',
         \<lparr>internal_unique_id = ''J32EZEH4ZG3S0104_JTS1_EMS_HEARTBEAT_pcsAPhase_vol'',
          serial = ''J32EZEH4ZG3S0104'',
          name = ''J32EZEH4ZG3S0104_pcsAPhase_vol'',
          friendly_name = ''pcsAPhase_vol_master'',
          value' = JInt 230,
          unit = Some ''V'',
          description = ''vol'',
          icon = None\<rparr>),
      (''J32EZEH4ZG3S0104_JTS1_EMS_HEARTBEAT_mpptHeartBeat_mpptPv_pwrTotal'',
         \<lparr>internal_unique_id = ''J32EZEH4ZG3S0104_JTS1_EMS_HEARTBEAT_mpptHeartBeat_mpptPv_pwrTotal'',
          serial = ''J32EZEH4ZG3S0104'',
          name = ''J32EZEH4ZG3S0104_mpptPv_pwrTotal'',
          friendly_name = ''mpptPv_pwrTotal_master'',
          value' = JFloat (Fin 0),
          unit = Some ''V'',
          description = ''Solarertrag aller Strings'',
          icon = Some ''mdi:solar-power''\<rparr>),
      (''J32EZEH4ZG3S0042_JTS1_EMS_HEARTBEAT_pcsAPhase_vol'',
         \<lparr>internal_unique_id = ''J32EZEH4ZG3S0042_JTS1_EMS_HEARTBEAT_pcsAPhase_vol'',
          serial = ''J32EZEH4ZG3S0042'',
          name = ''J32EZEH4ZG3S0042_pcsAPhase_vol'',
          friendly_name = ''pcsAPhase_vol_slave'',
          value' = JInt 230,
          unit = Some ''V'',
          description = ''vol'',
          icon = None\<rparr>),
      (''J32EZEH4ZG3S0042_JTS1_EMS_HEARTBEAT_mpptHeartBeat_mpptPv1_pwr'',
         \<lparr>internal_unique_id = ''J32EZEH4ZG3S0042_JTS1_EMS_HEARTBEAT_mpptHeartBeat_mpptPv1_pwr'',
          serial = ''J32EZEH4ZG3S0104'',
          name = ''J32EZEH4ZG3S0042_mpptPv1_pwr'',
          friendly_name = ''mpptPv1_pwr_slave'',
          value' = JInt 7,
          unit = Some ''W'',
          description = ''pwr'',
          icon = Some ''mdi:solar-power''\<rparr>),
      (''J32EZEH4ZG3S0042_JTS1_EMS_HEARTBEAT_mpptHeartBeat_mpptPv_pwrTotal'',
         \<lparr>internal_unique_id = ''J32EZEH4ZG3S0042_JTS1_EMS_HEARTBEAT_mpptHeartBeat_mpptPv_pwrTotal'',
          serial = ''J32EZEH4ZG3S0042'',
          name = ''J32EZEH4ZG3S0042_mpptPv_pwrTotal'',
          friendly_name = ''mpptPv_pwrTotal_slave'',
          value' = JFloat (Fin 7),
          unit = Some ''W'',
          description = ''Solarertrag aller Strings'',
          icon = Some ''mdi:solar-power''\<rparr>)]"

text \<open>The record of the field \<^verbatim>\<open>pwr\<close> of the slave inverter's only PV string in it.\<close>

definition slave_pv1_pwr :: PowerOceanEndPoint where
  "slave_pv1_pwr =
     \<lparr>internal_unique_id = ''J32EZEH4ZG3S0042_JTS1_EMS_HEARTBEAT_mpptHeartBeat_mpptPv1_pwr'',
      serial = ''J32EZEH4ZG3S0104'',
      name = ''J32EZEH4ZG3S0042_mpptPv1_pwr'',
      friendly_name = ''mpptPv1_pwr_slave'',
      value' = JInt 7,
      unit = Some ''W'',
      description = ''pwr'',
      icon = Some ''mdi:solar-power''\<rparr>"
section \<open>Basic facts\<close>

subsection \<open>Rounding to binary64\<close>

lemma ilog2_bounds: "0 < n \<Longrightarrow> 2 ^ ilog2 n \<le> n \<and> n < 2 * 2 ^ ilog2 n"
proof (induction n rule: ilog2.induct)
  case (1 n)
  show ?case
  proof (cases "n < 2")
    case True
    with 1 show ?thesis by (simp add: ilog2.simps [of n])
  next
    case False
    then have "0 < n div 2" by simp
    with 1 False have "2 ^ ilog2 (n div 2) \<le> n div 2 \<and> n div 2 < 2 * 2 ^ ilog2 (n div 2)"
      by simp
    with False show ?thesis by (simp add: ilog2.simps [of n]) linarith
  qed
qed


lemma ilog2_small: "n < 2 \<Longrightarrow> ilog2 n = 0"
  by (simp add: ilog2.simps)

lemma ilog2_large: "2 \<le> n \<Longrightarrow> ilog2 n = Suc (ilog2 (n div 2))"
  by (subst ilog2.simps) simp


lemma floor_rat_numeral: "\<lfloor>numeral a / numeral b :: rat\<rfloor> = numeral a div numeral b"
  using floor_divide_of_int_eq [where ?'a = rat, of "numeral a" "numeral b"] by simp

lemma floor_rat_one: "\<lfloor>1 / numeral b :: rat\<rfloor> = 1 div numeral b"
  using floor_divide_of_int_eq [where ?'a = rat, of 1 "numeral b"] by simp

lemma ceiling_rat_numeral: "\<lceil>numeral a / numeral b :: rat\<rceil> = - ((- numeral a) div numeral b)"
  using floor_divide_of_int_eq [where ?'a = rat, of "- numeral a" "numeral b"]
  by (simp add: ceiling_def)

text \<open>What unfolds \<open>round64\<close> at a number given by numerals.\<close>

lemmas round64_evals = round64_def flog2_def pow2_def round_half_even_def Let_def
  ilog2_small ilog2_large floor_rat_numeral floor_rat_one ceiling_rat_numeral


lemma pow2_pos: "0 < pow2 u"
  by (simp add: pow2_def)

lemma round_half_even_of_int: "round_half_even (of_int m) = m"
  by (simp add: round_half_even_def)

lemma round64_exact:
  assumes "x \<noteq> 0"
    and "\<bar>x\<bar> / pow2 (max (flog2 \<bar>x\<bar>) (- 1022) - 52) = of_int m"
    and "max (flog2 \<bar>x\<bar>) (- 1022) - 52 < 971"
  shows "round64 x = Fin x"
proof -
  define u where "u = max (flog2 \<bar>x\<bar>) (- 1022) - 52"
  from assms(2) have q: "\<bar>x\<bar> / pow2 u = of_int m" by (simp only: u_def)
  from assms(3) have small: "u < 971" by (simp only: u_def)
  from q have mag: "\<bar>x\<bar> = of_int m * pow2 u"
    using pow2_pos [of u] by (simp add: field_simps)
  with assms(1) have m: "m \<noteq> 0" by auto
  have val: "(if x < 0 then - 1 else 1) * rat_of_int m * pow2 u = x"
    using mag by (simp add: abs_if split: if_splits)
  have "round64 x =
          (let n = round_half_even (\<bar>x\<bar> / pow2 u)
           in if 971 < u \<or> (u = 971 \<and> n = 2 ^ 53) then (if x < 0 then NegInf else PosInf)
              else if n = 0 then (if x < 0 then NegZero else Fin 0)
              else Fin ((if x < 0 then - 1 else 1) * of_int n * pow2 u))"
    using assms(1) unfolding round64_def Let_def u_def by (simp only: if_False)
  also have "\<dots> = Fin ((if x < 0 then - 1 else 1) * of_int m * pow2 u)"
    using small m unfolding Let_def q round_half_even_of_int by simp
  finally show ?thesis by (simp only: val)
qed

lemma flog2_of_nat: "0 < n \<Longrightarrow> flog2 (of_nat n) = int (ilog2 n)"
  by (simp add: flog2_def)

lemma ilog2_le: 
  assumes "0 < n" and "n \<le> 2 ^ b"
  shows "ilog2 n \<le> b"
proof -
  from ilog2_bounds [OF assms(1)] have "(2::nat) ^ ilog2 n \<le> n" ..
  from this assms(2) have "(2::nat) ^ ilog2 n \<le> 2 ^ b" by (rule order_trans)
  then show ?thesis by (rule power_le_imp_le_exp [rotated]) simp
qed

lemma round64_of_nat:
  assumes "n \<le> 2 ^ 53"
  shows "round64 (of_nat n) = Fin (of_nat n)"
proof (cases "n = 0")
  case True
  then show ?thesis by (simp add: round64_def)
next
  case False
  then have pos: "0 < n" by simp
  let ?e = "ilog2 n"
  have e: "?e \<le> 53" using ilog2_le [OF pos assms] .
  have fl: "flog2 (of_nat n) = int ?e" using pos by (simp add: flog2_of_nat)
  have u: "max (flog2 \<bar>of_nat n :: rat\<bar>) (- 1022) - 52 = int ?e - 52"
    by (simp add: fl max_def)
  have "\<exists>m. \<bar>of_nat n :: rat\<bar> / pow2 (int ?e - 52) = of_int m"
  proof (cases "?e \<le> 52")
    case True
    then have "pow2 (int ?e - 52) = 1 / 2 ^ (52 - ?e)"
      by (cases "?e = 52") (simp_all add: pow2_def nat_diff_distrib)
    then have "\<bar>of_nat n :: rat\<bar> / pow2 (int ?e - 52) = of_int (int n * 2 ^ (52 - ?e))"
      by simp
    then show ?thesis ..
  next
    case False
    with e have e53: "?e = 53" by simp
    with ilog2_bounds [OF pos] assms have "n = 2 ^ 53" by simp
    with e53 have "\<bar>of_nat n :: rat\<bar> / pow2 (int ?e - 52) = of_int (2 ^ 52)"
      by (simp add: pow2_def)
    then show ?thesis ..
  qed
  then obtain m where "\<bar>of_nat n :: rat\<bar> / pow2 (int ?e - 52) = of_int m" ..
  then have q: "\<bar>of_nat n :: rat\<bar> / pow2 (max (flog2 \<bar>of_nat n\<bar>) (- 1022) - 52) = of_int m"
    by (simp only: u)
  have "int ?e - 52 < 971" using e by simp
  then have small: "max (flog2 \<bar>of_nat n :: rat\<bar>) (- 1022) - 52 < 971" by (simp only: u)
  have "(of_nat n :: rat) \<noteq> 0" using False by simp
  from this q small show ?thesis by (rule round64_exact)
qed

lemma round64_minus:
  assumes "round64 x = Fin x" and "x \<noteq> 0"
  shows "round64 (- x) = Fin (- x)"
  using assms by (simp add: round64_def Let_def split: if_splits)

lemma round64_of_int:
  assumes "\<bar>k\<bar> \<le> 2 ^ 53"
  shows "round64 (of_int k) = Fin (of_int k)"
proof (cases "0 \<le> k")
  case True
  then obtain n where k: "k = int n" using nonneg_int_cases by blast
  with assms have "n \<le> 2 ^ 53" by (simp add: of_nat_le_iff [symmetric] del: of_nat_le_iff)
  from round64_of_nat [OF this] k show ?thesis by simp
next
  case False
  then obtain n where k: "k = - int n" and n: "0 < n" using negD by (metis neg_int_cases not_le)
  with assms have "n \<le> 2 ^ 53" by (simp add: of_nat_le_iff [symmetric] del: of_nat_le_iff)
  from round64_of_nat [OF this] have "round64 (of_nat n) = Fin (of_nat n)" .
  from round64_minus [OF this] n k show ?thesis by simp
qed

lemma round64_zero [simp]: "round64 0 = Fin 0"
  by (simp add: round64_def)

lemma round64_one [simp]: "round64 1 = Fin 1"
  using round64_of_int [of 1] by simp

lemma round64_numeral [simp]:
  "(numeral k :: int) \<le> 2 ^ 53 \<Longrightarrow> round64 (numeral k) = Fin (numeral k)"
  using round64_of_int [of "numeral k"] by simp

lemma float_add_Fin [simp]: "float_add (Fin a) (Fin b) = round64 (a + b)"
  by (simp add: float_add_def)

lemma float_of_int_exact:
  "\<bar>k\<bar> \<le> 2 ^ 53 \<Longrightarrow> float_of_int k = Inr (Fin (of_int k))"
  by (simp add: float_of_int_def round64_of_int)

lemma float_of_int_numeral [simp]:
  "(numeral k :: int) \<le> 2 ^ 53 \<Longrightarrow> float_of_int (numeral k) = Inr (Fin (numeral k))"
  using float_of_int_exact [of "numeral k"] by simp

subsection \<open>Sequencing\<close>

lemma andthen_Inl [simp]: "andthen (Inl e) f = Inl e"
  by (simp add: andthen_def)

lemma andthen_Inr [simp]: "andthen (Inr x) f = f x"
  by (simp add: andthen_def)

lemma andthen_Inr_iff: "andthen m f = Inr y \<longleftrightarrow> (\<exists>x. m = Inr x \<and> f x = Inr y)"
  by (cases m) simp_all

lemma isl_andthenI: "(\<And>x. m = Inr x \<Longrightarrow> isl (f x)) \<Longrightarrow> isl (andthen m f)"
  by (cases m) simp_all

lemma getitem_Inr_iff:
  "getitem x k = Inr v \<longleftrightarrow> (\<exists>kvs. x = JObj kvs \<and> map_of kvs k = Some v)"
  by (cases x) (auto split: option.splits)

lemma keys_Inr_iff: "keys x = Inr ks \<longleftrightarrow> (\<exists>kvs. x = JObj kvs \<and> ks = map fst kvs)"
  by (cases x) auto

lemma items_Inr_iff: "items x = Inr its \<longleftrightarrow> x = JObj its"
  by (cases x) auto

section \<open>The topology resolver\<close>

text \<open>
  The resolver of \<^verbatim>\<open>src/ecoflow.py\<close> returns only for a response that has \<^verbatim>\<open>quota\<close>, has
  \<^verbatim>\<open>parallel\<close>, and has both fixed serial numbers as keys of \<^verbatim>\<open>parallel\<close>.
\<close>

lemma get_serial_numbers_needs_fixed_serials:
  assumes "get_serial_numbers self response = Inr res"
  shows "\<exists>r data p. response = JObj r \<and> map_of r ''data'' = Some (JObj data)
           \<and> map_of data ''parallel'' = Some (JObj p)
           \<and> map_of p ''J32EZEH4ZG3S0104'' \<noteq> None \<and> map_of p ''J32EZEH4ZG3S0042'' \<noteq> None"
proof -
  from assms obtain p_data p_data_parallel pm ps ks1 ks2 where
    d: "getitem response ''data'' = Inr p_data" and k: "keys p_data = Inr ks1"
    and p: "getitem p_data ''parallel'' = Inr p_data_parallel"
    and k2: "keys p_data_parallel = Inr ks2"
    and m: "getitem p_data_parallel ''J32EZEH4ZG3S0104'' = Inr pm"
    and s: "getitem p_data_parallel ''J32EZEH4ZG3S0042'' = Inr ps"
    unfolding get_serial_numbers_def andthen_Inr_iff by blast
  from d obtain r where r: "response = JObj r" "map_of r ''data'' = Some p_data"
    by (auto simp: getitem_Inr_iff)
  from p obtain data where data: "p_data = JObj data" "map_of data ''parallel'' = Some p_data_parallel"
    by (auto simp: getitem_Inr_iff)
  from m s obtain pp where "p_data_parallel = JObj pp" "map_of pp ''J32EZEH4ZG3S0104'' = Some pm"
    "map_of pp ''J32EZEH4ZG3S0042'' = Some ps"
    by (auto simp: getitem_Inr_iff)
  with r data show ?thesis by auto
qed

text \<open>So a response without \<^verbatim>\<open>parallel\<close> always makes it raise.\<close>

lemma get_serial_numbers_no_parallel:
  assumes "map_of r ''data'' = Some (JObj data)" and "map_of data ''parallel'' = None"
  shows "isl (get_serial_numbers self (JObj r))"
proof (cases "get_serial_numbers self (JObj r)")
  case (Inl e)
  then show ?thesis by simp
next
  case (Inr res)
  from get_serial_numbers_needs_fixed_serials [OF Inr] assms show ?thesis by auto
qed

text \<open>
  Where the resolver returns on a \<^verbatim>\<open>parallel\<close> mapping of two keys, the roles are assigned
  as lines 728 to 740 say: the first key is the master if it is the configured serial
  number, otherwise the second key is.
\<close>

lemma get_serial_numbers_two_keys:
  assumes "get_serial_numbers self (JObj r) = Inr (self1, n)"
    and "map_of r ''data'' = Some (JObj data)"
    and "map_of data ''parallel'' = Some (JObj [(k1, v1), (k2, v2)])"
    and "k1 \<noteq> k2"
  shows "n = 2
         \<and> master_sn self1 = Some (if k1 = sn self then k1 else k2)
         \<and> slave_sn self1 = Some (if k1 = sn self then k2 else k1)
         \<and> master_data self1 = Some (if k1 = sn self then v1 else v2)
         \<and> slave_data self1 = Some (if k1 = sn self then v2 else v1)"
proof -
  from assms(3) have "''parallel'' \<in> fst ` set data"
    by (metis domI dom_map_of_conv_image_fst)
  with assms show ?thesis
    unfolding get_serial_numbers_def
    by (auto simp: andthen_Inr_iff keys_Inr_iff split: option.splits if_splits)
qed

section \<open>Claims on the topology resolver\<close>

text \<open>
  C1. The claim: for every response whose \<^verbatim>\<open>data.parallel\<close> has exactly two keys, one of
  them the configured serial number, the resolver puts the configured serial number in
  the master role. At a dual response whose serial numbers are not the two written
  into the source, the resolver of \<^verbatim>\<open>src/ecoflow.py\<close> raises \<^verbatim>\<open>KeyError\<close> at the lookup of
  the first fixed serial number and assigns nothing.
\<close>

theorem resolver_two_keys_raises:
  "get_serial_numbers (init ''J32EZEH4ZG3S0001'') response_two_keys
     = Inl (KeyError ''J32EZEH4ZG3S0104'')"
  by (simp add: get_serial_numbers_def response_two_keys_def)

text \<open>
  The earlier revision returns on that response, but takes the last key as master
  without comparing: here the configured serial number ends as slave.
\<close>

lemma resolver_cc_two_keys:
  "get_serial_numbers_cc (init ''J32EZEH4ZG3S0001'') response_two_keys =
     Inr (init ''J32EZEH4ZG3S0001''
            \<lparr>slave_sn := Some ''J32EZEH4ZG3S0001'', master_sn := Some ''J32EZEH4ZG3S0002'',
             master_data := Some (JObj []), slave_data := Some (JObj [])\<rparr>, 2)"
  by (simp add: get_serial_numbers_cc_def response_two_keys_def)

text \<open>
  C2. The claim: with a \<^verbatim>\<open>parallel\<close> mapping of 0, 1 or at least 3 keys, \<^verbatim>\<open>_get_sensors\<close>
  returns no sensor map and does not crash. At an empty \<^verbatim>\<open>parallel\<close> mapping it raises
  \<^verbatim>\<open>KeyError\<close> instead of returning.
\<close>

theorem get_sensors_no_keys_raises:
  "get_sensors json_loads float_sum (init ''J32EZEH4ZG3S0001'') response_no_keys
     = Inl (KeyError ''J32EZEH4ZG3S0104'')"
  by (simp add: get_sensors_def get_serial_numbers_def response_no_keys_def)

text \<open>
  Without the lookups of the fixed serial numbers the empty mapping still raises, at
  \<^verbatim>\<open>next(iter(keys_2))\<close>, as the earlier revision shows.
\<close>

lemma resolver_cc_no_keys:
  "get_serial_numbers_cc (init ''J32EZEH4ZG3S0001'') response_no_keys = Inl StopIteration"
  by (simp add: get_serial_numbers_cc_def response_no_keys_def)

text \<open>Where the resolver returns a count other than 0 and 2, the abort is explicit.\<close>

lemma get_sensors_aborts:
  assumes "get_serial_numbers self response = Inr (self1, n)" and "n \<noteq> 0" and "n \<noteq> 2"
  shows "get_sensors json_loads float_sum self response = Inr (self1, None)"
  using assms by (simp add: get_sensors_def)

text \<open>
  C3. The claim: for every response without \<^verbatim>\<open>parallel\<close>, the resolver returns 0 and
  records \<^verbatim>\<open>data.quota\<close>. At a single-inverter response the resolver of
  \<^verbatim>\<open>src/ecoflow.py\<close> raises \<^verbatim>\<open>KeyError\<close> at its unguarded lookup of \<^verbatim>\<open>parallel\<close>.
\<close>

theorem resolver_single_raises:
  "get_serial_numbers (init ''J32EZEH4ZG3S0001'') response_single = Inl (KeyError ''parallel'')"
  by (simp add: get_serial_numbers_def response_single_def)

text \<open>The earlier revision does what the claim says on that response.\<close>

lemma resolver_cc_single:
  "get_serial_numbers_cc (init ''J32EZEH4ZG3S0001'') response_single =
     Inr (init ''J32EZEH4ZG3S0001'' \<lparr>master_data := Some (JObj [])\<rparr>, 0)"
  by (simp add: get_serial_numbers_cc_def response_single_def)
section \<open>Records are stored under their unique id\<close>

lemma uid_keyed_Nil [simp]: "uid_keyed []"
  by (simp add: uid_keyed_def)

lemma uid_keyed_update:
  "uid_keyed m \<Longrightarrow> internal_unique_id r = k \<Longrightarrow> uid_keyed (AList.update k r m)"
  by (induction m) (auto simp: uid_keyed_def)

lemma uid_keyed_fold:
  assumes "\<And>x acc. uid_keyed acc \<Longrightarrow> uid_keyed (f x acc)" and "uid_keyed acc"
  shows "uid_keyed (fold f xs acc)"
  using assms(2) by (induction xs arbitrary: acc) (simp_all add: assms(1))

lemma uid_keyed_dict_update:
  assumes "uid_keyed sensors" and "uid_keyed data"
  shows "uid_keyed (dict_update sensors data)"
  using assms
proof (induction data arbitrary: sensors)
  case Nil
  then show ?case by (simp add: dict_update_def)
next
  case (Cons kv data)
  from Cons.prems have "uid_keyed (AList.update (fst kv) (snd kv) sensors)"
    by (intro uid_keyed_update) (simp_all add: uid_keyed_def)
  moreover from Cons.prems have "uid_keyed data"
    by (simp add: uid_keyed_def)
  ultimately have "uid_keyed (dict_update (AList.update (fst kv) (snd kv) sensors) data)"
    by (rule Cons.IH)
  then show ?case by (simp add: dict_update_def)
qed

lemma uid_keyed_data_step: "uid_keyed acc \<Longrightarrow> uid_keyed (data_step self kv acc)"
  by (simp add: data_step_def Let_def uid_keyed_update)

lemma uid_keyed_ems_change_step:
  "uid_keyed acc \<Longrightarrow> uid_keyed (ems_change_step sel i_sn i_str kv acc)"
  by (simp add: ems_change_step_def ems_change_record_def Let_def uid_keyed_update)

lemma uid_keyed_battery_step:
  "uid_keyed acc \<Longrightarrow> uid_keyed (battery_step i_sn i_str bat nm kv acc)"
  by (simp add: battery_step_def Let_def uid_keyed_update)

lemma uid_keyed_heartbeat_step:
  "uid_keyed acc \<Longrightarrow> uid_keyed (heartbeat_step i_sn i_str kv acc)"
  by (simp add: heartbeat_step_def Let_def uid_keyed_update)

lemma uid_keyed_phase_step:
  "uid_keyed acc \<Longrightarrow> uid_keyed (phase_step i_sn i_str phase kv acc)"
  by (simp add: phase_step_def Let_def uid_keyed_update)

lemma uid_keyed_get_sensors_data:
  "get_sensors_data self response = Inr res \<Longrightarrow> uid_keyed res"
  by (auto simp: get_sensors_data_def andthen_Inr_iff intro!: uid_keyed_fold uid_keyed_data_step)

lemma uid_keyed_get_sensors_ems_change:
  "get_sensors_ems_change i_data sensors i_sn i_str = Inr res \<Longrightarrow> uid_keyed sensors
     \<Longrightarrow> uid_keyed res"
  by (auto simp: get_sensors_ems_change_def andthen_Inr_iff Let_def
           intro!: uid_keyed_dict_update uid_keyed_fold uid_keyed_ems_change_step)

lemma uid_keyed_battery_loop:
  "battery_loop json_loads float_sum d i_sn i_str ibat batts data = Inr res \<Longrightarrow> uid_keyed data
     \<Longrightarrow> uid_keyed res"
proof (induction batts arbitrary: ibat data)
  case Nil
  then show ?case by simp
next
  case (Cons bat batts)
  from Cons.prems(1) obtain its v where
    rest: "battery_loop json_loads float_sum d i_sn i_str (ibat + 1) batts
             (AList.update (battery_uid i_sn bat ''bpTemp'')
                (bpTemp_record i_sn i_str bat (bpack_name ibat) v)
                (fold (battery_step i_sn i_str bat (bpack_name ibat)) its data)) = Inr res"
    by (auto simp: andthen_Inr_iff Let_def)
  have "uid_keyed (fold (battery_step i_sn i_str bat (bpack_name ibat)) its data)"
    using Cons.prems(2) by (intro uid_keyed_fold uid_keyed_battery_step)
  then have "uid_keyed (AList.update (battery_uid i_sn bat ''bpTemp'')
                (bpTemp_record i_sn i_str bat (bpack_name ibat) v)
                (fold (battery_step i_sn i_str bat (bpack_name ibat)) its data))"
    by (rule uid_keyed_update) (simp add: bpTemp_record_def)
  with rest show ?case by (rule Cons.IH)
qed

lemma uid_keyed_get_sensors_battery:
  "get_sensors_battery json_loads float_sum i_data sensors i_sn i_str = Inr res \<Longrightarrow> uid_keyed sensors
     \<Longrightarrow> uid_keyed res"
  by (auto simp: get_sensors_battery_def andthen_Inr_iff Let_def
           intro!: uid_keyed_dict_update dest: uid_keyed_battery_loop)

lemma uid_keyed_phases_loop:
  "phases_loop d i_sn i_str phases st = Inr st' \<Longrightarrow> uid_keyed (fst st) \<Longrightarrow> uid_keyed (fst st')"
proof (induction phases arbitrary: st)
  case Nil
  then show ?case by simp
next
  case (Cons phase phases)
  from Cons.prems(1) obtain its where
    rest: "phases_loop d i_sn i_str phases
             (fold (phase_step i_sn i_str phase) its (fst st), last_key (snd st) its) = Inr st'"
    by (auto simp: andthen_Inr_iff)
  have "uid_keyed (fold (phase_step i_sn i_str phase) its (fst st))"
    using Cons.prems(2) by (intro uid_keyed_fold uid_keyed_phase_step)
  with Cons.IH [OF rest] show ?case by simp
qed

lemma uid_keyed_mpptPv_fields:
  "mpptPv_fields self i_sn i_str mpptpv its st = Inr st' \<Longrightarrow> uid_keyed (fst st)
     \<Longrightarrow> uid_keyed (fst st')"
proof (induction its arbitrary: st)
  case Nil
  then show ?case by simp
next
  case (Cons kv its)
  let ?data1 = "AList.update
                  (heartbeat_uid i_sn (''mpptHeartBeat_'' @ mpptpv @ ''_'' @ fst kv))
                  (mpptPv_record self i_sn i_str mpptpv (fst kv) (snd kv)) (fst st)"
  have keyed: "uid_keyed ?data1"
    using Cons.prems(2) by (rule uid_keyed_update) (simp add: mpptPv_record_def)
  from Cons.prems(1) obtain s where
    "mpptPv_fields self i_sn i_str mpptpv its (?data1, s) = Inr st'"
    by (auto simp: andthen_Inr_iff Let_def split: if_splits)
  from Cons.IH [OF this] keyed show ?case by simp
qed

lemma uid_keyed_mpptPv_loop:
  "mpptPv_loop self d i_sn i_str idxs st = Inr st' \<Longrightarrow> uid_keyed (fst st)
     \<Longrightarrow> uid_keyed (fst st')"
proof (induction idxs arbitrary: st)
  case Nil
  then show ?case by simp
next
  case (Cons i idxs)
  from Cons.prems(1) obtain its r where
    fields: "mpptPv_fields self i_sn i_str (''mpptPv'' @ string_of_nat (i + 1)) its
               (fst st, fst (snd st)) = Inr r"
    and rest: "mpptPv_loop self d i_sn i_str idxs (fst r, snd r, last_key (snd (snd st)) its)
                 = Inr st'"
    by (auto simp: andthen_Inr_iff)
  from uid_keyed_mpptPv_fields [OF fields] Cons.prems(2) have "uid_keyed (fst r)" by simp
  with Cons.IH [OF rest] show ?case by simp
qed

lemma uid_keyed_get_sensors_ems_heartbeat:
  assumes "get_sensors_ems_heartbeat self i_data sensors i_sn i_str = Inr res"
    and "uid_keyed sensors"
  shows "uid_keyed res"
proof -
  from assms(1) obtain d its st1 n_strings st2 key where
    phases: "phases_loop d i_sn i_str [''pcsAPhase'', ''pcsBPhase'', ''pcsCPhase'']
               (fold (heartbeat_step i_sn i_str) its [], last_key None its) = Inr st1"
    and strings: "mpptPv_loop self d i_sn i_str [0..<n_strings] (fst st1, Fin 0, snd st1) = Inr st2"
    and res: "res = dict_update sensors
                (AList.update (heartbeat_uid i_sn (''mpptHeartBeat_'' @ ''mpptPv_pwrTotal''))
                   (pwrTotal_record i_sn i_str (fst (snd st2)) key) (fst st2))"
    unfolding get_sensors_ems_heartbeat_def andthen_Inr_iff Let_def by blast
  have "uid_keyed (fold (heartbeat_step i_sn i_str) its [])"
    by (intro uid_keyed_fold uid_keyed_heartbeat_step) simp_all
  with uid_keyed_phases_loop [OF phases] have "uid_keyed (fst st1)" by simp
  with uid_keyed_mpptPv_loop [OF strings] have "uid_keyed (fst st2)" by simp
  then have "uid_keyed (AList.update (heartbeat_uid i_sn (''mpptHeartBeat_'' @ ''mpptPv_pwrTotal''))
                   (pwrTotal_record i_sn i_str (fst (snd st2)) key) (fst st2))"
    by (rule uid_keyed_update) (simp add: pwrTotal_record_def)
  with assms(2) show ?thesis unfolding res by (rule uid_keyed_dict_update)
qed

lemma andthen_InrE:
  assumes "andthen m f = Inr y"
  obtains x where "m = Inr x" and "f x = Inr y"
  using assms by (cases m) simp_all

lemma uid_keyed_get_sensors:
  assumes "get_sensors json_loads float_sum self response = Inr (self1, Some sensors)"
  shows "uid_keyed sensors"
proof -
  from assms obtain res :: "Ecoflow \<times> nat" and branch where
    rest: "(case branch of
         None \<Rightarrow> Inr (fst res, None)
       | Some master_string \<Rightarrow>
         andthen (get_sensors_data (fst res) response) (\<lambda>sensors.
         andthen (getattr (master_data (fst res)) ''master_data'') (\<lambda>m_data.
         andthen (getattr (master_sn (fst res)) ''master_sn'') (\<lambda>m_sn.
         andthen (get_sensors_ems_change m_data sensors m_sn master_string) (\<lambda>sensors.
         andthen (get_sensors_battery json_loads float_sum m_data sensors m_sn master_string) (\<lambda>sensors.
         andthen (get_sensors_ems_heartbeat (fst res) m_data sensors m_sn master_string) (\<lambda>sensors.
           if snd res = 2 then
             andthen (getattr (slave_data (fst res)) ''slave_data'') (\<lambda>s_data.
             andthen (getattr (slave_sn (fst res)) ''slave_sn'') (\<lambda>s_sn.
             andthen (get_sensors_ems_change s_data sensors s_sn ''_slave'') (\<lambda>sensors.
             andthen (get_sensors_battery json_loads float_sum s_data sensors s_sn ''_slave'') (\<lambda>sensors.
             andthen (get_sensors_ems_heartbeat (fst res) s_data sensors s_sn ''_slave'') (\<lambda>sensors.
               Inr (fst res, Some sensors))))))
           else Inr (fst res, Some sensors)))))))) = Inr (self1, Some sensors)"
    unfolding get_sensors_def Let_def by (elim andthen_InrE) blast
  then obtain master_string where "branch = Some master_string"
    by (cases branch) auto
  with rest obtain s0 m_data m_sn s1 s2 s3 where
    root: "get_sensors_data (fst res) response = Inr s0"
    and m1: "get_sensors_ems_change m_data s0 m_sn master_string = Inr s1"
    and m2: "get_sensors_battery json_loads float_sum m_data s1 m_sn master_string = Inr s2"
    and m3: "get_sensors_ems_heartbeat (fst res) m_data s2 m_sn master_string = Inr s3"
    and slave: "(if snd res = 2 then
             andthen (getattr (slave_data (fst res)) ''slave_data'') (\<lambda>s_data.
             andthen (getattr (slave_sn (fst res)) ''slave_sn'') (\<lambda>s_sn.
             andthen (get_sensors_ems_change s_data s3 s_sn ''_slave'') (\<lambda>sensors.
             andthen (get_sensors_battery json_loads float_sum s_data sensors s_sn ''_slave'') (\<lambda>sensors.
             andthen (get_sensors_ems_heartbeat (fst res) s_data sensors s_sn ''_slave'') (\<lambda>sensors.
               Inr (fst res, Some sensors))))))
           else Inr (fst res, Some s3)) = Inr (self1, Some sensors)"
    by simp (elim andthen_InrE, blast)
  have k0: "uid_keyed s0" using root by (rule uid_keyed_get_sensors_data)
  have k1: "uid_keyed s1" using m1 k0 by (rule uid_keyed_get_sensors_ems_change)
  have k2: "uid_keyed s2" using m2 k1 by (rule uid_keyed_get_sensors_battery)
  have k3: "uid_keyed s3" using m3 k2 by (rule uid_keyed_get_sensors_ems_heartbeat)
  show ?thesis
  proof (cases "snd res = 2")
    case False
    with slave k3 show ?thesis by simp
  next
    case True
    with slave obtain s_data s_sn s4 s5 where
      c: "get_sensors_ems_change s_data s3 s_sn ''_slave'' = Inr s4"
      and b: "get_sensors_battery json_loads float_sum s_data s4 s_sn ''_slave'' = Inr s5"
      and h: "get_sensors_ems_heartbeat (fst res) s_data s5 s_sn ''_slave'' = Inr sensors"
      by simp (elim andthen_InrE, auto)
    have k4: "uid_keyed s4" using c k3 by (rule uid_keyed_get_sensors_ems_change)
    have k5: "uid_keyed s5" using b k4 by (rule uid_keyed_get_sensors_battery)
    show ?thesis using h k5 by (rule uid_keyed_get_sensors_ems_heartbeat)
  qed
qed
text \<open>The assembled map of the dual fixture.\<close>

lemma get_sensors_response_dual:
  "get_sensors json_loads_fixture sum_left_to_right (init ''J32EZEH4ZG3S0104'') response_dual
     = Inr (instance_dual, Some sensors_dual)"
  by (simp add: get_sensors_def get_serial_numbers_def response_dual_def dual_response_def
        inverter_root_def heartbeat_fixture_def init_def instance_dual_def resolved_def sensors_dual_def
        get_sensors_data_def data_step_def sens_select_data_def
        get_sensors_ems_change_def ems_change_step_def ems_change_select_def ems_change_uid_def
        ems_change_record_def re_match_mppt_Code_def
        get_sensors_battery_def get_sensors_ems_heartbeat_def heartbeat_step_def
        heartbeat_select_def heartbeat_uid_def phase_step_def mpptPv_record_def pwrTotal_record_def
        last_key_def dict_update_def get_unit_def get_description_def endswith_def startswith_def
        suffix_to_prefix sublist_Cons_right string_of_nat.simps Let_def)
text \<open>
  C10. For every entry of the sensor map that \<^verbatim>\<open>_get_sensors\<close> returns, the key of the
  entry is the \<^verbatim>\<open>internal_unique_id\<close> of its record.
\<close>

theorem get_sensors_keyed_by_unique_id:
  assumes "get_sensors json_loads float_sum self response = Inr (self1, Some sensors)"
    and "(k, r) \<in> set sensors"
  shows "internal_unique_id r = k"
  using uid_keyed_get_sensors [OF assms(1)] assms(2)
  by (auto simp: uid_keyed_def list_all_iff)

theorem get_sensors_keyed_by_unique_id_witness:
  "get_sensors json_loads_fixture sum_left_to_right (init ''J32EZEH4ZG3S0104'') response_dual
     = Inr (instance_dual, Some sensors_dual)
   \<and> (''J32EZEH4ZG3S0042_JTS1_EMS_HEARTBEAT_mpptHeartBeat_mpptPv1_pwr'', slave_pv1_pwr)
       \<in> set sensors_dual
   \<and> internal_unique_id slave_pv1_pwr
       = ''J32EZEH4ZG3S0042_JTS1_EMS_HEARTBEAT_mpptHeartBeat_mpptPv1_pwr''"
proof -
  have ran: "get_sensors json_loads_fixture sum_left_to_right (init ''J32EZEH4ZG3S0104'') response_dual
               = Inr (instance_dual, Some sensors_dual)"
    by (rule get_sensors_response_dual)
  have entry: "(''J32EZEH4ZG3S0042_JTS1_EMS_HEARTBEAT_mpptHeartBeat_mpptPv1_pwr'', slave_pv1_pwr)
                 \<in> set sensors_dual"
    by (simp add: sensors_dual_def slave_pv1_pwr_def)
  from get_sensors_keyed_by_unique_id [OF ran entry] ran entry show ?thesis by simp
qed

section \<open>The serial number of a record\<close>

text \<open>
  C9. The claim: every record carries the serial number of the inverter it belongs to,
  also the per-string records of the slave inverter. On the dual fixture the instance
  is configured with the serial number of the master, and the record of the slave's PV
  string, stored under the slave's unique id and with the slave's \<^verbatim>\<open>name\<close>, has the
  master's serial number in \<^verbatim>\<open>serial\<close>: \<^verbatim>\<open>__get_sensors_ems_heartbeat\<close> writes \<^verbatim>\<open>self.sn\<close>
  there.
\<close>

theorem slave_pv_string_has_own_serial:
  "get_sensors json_loads_fixture sum_left_to_right (init ''J32EZEH4ZG3S0104'') response_dual
     = Inr (instance_dual, Some sensors_dual)
   \<and> slave_sn instance_dual = Some ''J32EZEH4ZG3S0042''
   \<and> map_of sensors_dual ''J32EZEH4ZG3S0042_JTS1_EMS_HEARTBEAT_mpptHeartBeat_mpptPv1_pwr''
       = Some slave_pv1_pwr
   \<and> serial slave_pv1_pwr = ''J32EZEH4ZG3S0104''"
  by (simp add: get_sensors_response_dual)
     (simp add: instance_dual_def resolved_def sensors_dual_def slave_pv1_pwr_def)

text \<open>In general, a per-string record has the configured serial number, whatever the inverter.\<close>

lemma mpptPv_record_serial:
  "serial (mpptPv_record self inverter_sn inverter_string mpptpv key val) = sn self"
  by (simp add: mpptPv_record_def)
section \<open>Lookup in an updated sensor dict\<close>

lemma map_of_dict_update:
  "map_of (dict_update sensors data) k
     = (case map_of (rev data) k of None \<Rightarrow> map_of sensors k | Some v \<Rightarrow> Some v)"
proof (induction data arbitrary: sensors)
  case Nil
  then show ?case by (simp add: dict_update_def)
next
  case (Cons kv data)
  have "map_of (dict_update sensors (kv # data)) k
          = map_of (dict_update (AList.update (fst kv) (snd kv) sensors) data) k"
    by (simp add: dict_update_def)
  also have "\<dots> = (case map_of (rev data) k of
                      None \<Rightarrow> map_of (AList.update (fst kv) (snd kv) sensors) k
                    | Some v \<Rightarrow> Some v)"
    by (rule Cons.IH)
  also have "\<dots> = (case map_of (rev (kv # data)) k of
                      None \<Rightarrow> map_of sensors k | Some v \<Rightarrow> Some v)"
    by (cases kv) (auto simp: update_conv' map_add_def split: option.splits)
  finally show ?case .
qed

lemma map_of_rev_distinct:
  assumes "distinct (map fst xs)"
  shows "map_of (rev xs) k = map_of xs k"
proof (cases "map_of xs k")
  case None
  then have "k \<notin> fst ` set (rev xs)" by (simp add: map_of_eq_None_iff)
  then have "map_of (rev xs) k = None" by (simp add: map_of_eq_None_iff)
  with None show ?thesis by simp
next
  case (Some v)
  then have "(k, v) \<in> set (rev xs)" by (auto dest: map_of_SomeD)
  moreover from assms have "distinct (map fst (rev xs))" by (simp add: rev_map [symmetric])
  ultimately have "map_of (rev xs) k = Some v" by (rule map_of_is_SomeI [rotated])
  with Some show ?thesis by simp
qed

lemma map_of_dict_update_Some:
  "map_of data k = Some v \<Longrightarrow> distinct (map fst data)
     \<Longrightarrow> map_of (dict_update sensors data) k = Some v"
  by (simp add: map_of_dict_update map_of_rev_distinct)

lemma map_of_dict_update_None:
  assumes "map_of data k = None"
  shows "map_of (dict_update sensors data) k = map_of sensors k"
proof -
  from assms have "k \<notin> fst ` set data" by (simp add: map_of_eq_None_iff)
  then have "map_of (rev data) k = None" by (simp add: map_of_eq_None_iff)
  then show ?thesis by (simp add: map_of_dict_update)
qed

lemma distinct_fold_update:
  assumes "\<And>x acc. distinct (map fst acc) \<Longrightarrow> distinct (map fst (f x acc))"
    and "distinct (map fst acc)"
  shows "distinct (map fst (fold f xs acc))"
  using assms(2) by (induction xs arbitrary: acc) (simp_all add: assms(1))

section \<open>The change-report extractor\<close>

text \<open>What the anchored pattern accepts, in plain terms.\<close>

lemma dotstar_then_iff:
  "dotstar_then p s \<longleftrightarrow> (\<exists>u v. s = u @ p @ v \<and> CHR 0x0A \<notin> set u)"
proof (induction s)
  case Nil
  then show ?case by auto
next
  case (Cons c s)
  show ?case
  proof
    assume "dotstar_then p (c # s)"
    then consider "prefix p (c # s)" | "c \<noteq> CHR 0x0A" "dotstar_then p s" by auto
    then show "\<exists>u v. c # s = u @ p @ v \<and> CHR 0x0A \<notin> set u"
    proof cases
      case 1
      then obtain v where "c # s = p @ v" by (auto simp: prefix_def)
      then have "c # s = [] @ p @ v \<and> CHR 0x0A \<notin> set []" by simp
      then show ?thesis by blast
    next
      case 2
      with Cons.IH obtain u v where "s = u @ p @ v" "CHR 0x0A \<notin> set u" by blast
      with 2(1) have "c # s = (c # u) @ p @ v \<and> CHR 0x0A \<notin> set (c # u)" by simp
      then show ?thesis by blast
    qed
  next
    assume "\<exists>u v. c # s = u @ p @ v \<and> CHR 0x0A \<notin> set u"
    then obtain u v where uv: "c # s = u @ p @ v" "CHR 0x0A \<notin> set u" by blast
    show "dotstar_then p (c # s)"
    proof (cases u)
      case Nil
      with uv have "prefix p (c # s)" by (simp add: prefix_def)
      then show ?thesis by simp
    next
      case (Cons c' u')
      with uv have "c = c'" "s = u' @ p @ v" "CHR 0x0A \<notin> set u'" "c \<noteq> CHR 0x0A" by auto
      with Cons.IH show ?thesis by auto
    qed
  qed
qed

lemma re_match_mppt_Code_iff:
  "re_match_mppt_Code key \<longleftrightarrow> (\<exists>u v. key = ''mppt'' @ u @ ''Code'' @ v \<and> CHR 0x0A \<notin> set u)"
proof
  assume "re_match_mppt_Code key"
  then obtain rest u v where "key = ''mppt'' @ rest" "drop 4 key = u @ ''Code'' @ v"
    "CHR 0x0A \<notin> set u"
    by (auto simp: re_match_mppt_Code_def dotstar_then_iff prefix_def simp del: append.simps)
  then have "key = ''mppt'' @ u @ ''Code'' @ v \<and> CHR 0x0A \<notin> set u" by simp
  then show "\<exists>u v. key = ''mppt'' @ u @ ''Code'' @ v \<and> CHR 0x0A \<notin> set u" by blast
next
  assume "\<exists>u v. key = ''mppt'' @ u @ ''Code'' @ v \<and> CHR 0x0A \<notin> set u"
  then obtain u v where "key = ''mppt'' @ u @ ''Code'' @ v" "CHR 0x0A \<notin> set u" by blast
  then have "prefix ''mppt'' key" "drop 4 key = u @ ''Code'' @ v" by simp_all
  with \<open>CHR 0x0A \<notin> set u\<close> show "re_match_mppt_Code key"
    unfolding re_match_mppt_Code_def dotstar_then_iff by blast
qed

lemma ems_change_uid_eq [simp]: "ems_change_uid i_sn k = ems_change_uid i_sn k' \<longleftrightarrow> k = k'"
  by (simp add: ems_change_uid_def)

lemma distinct_ems_change_step:
  "distinct (map fst acc) \<Longrightarrow> distinct (map fst (ems_change_step sel i_sn i_str kv acc))"
  by (simp add: ems_change_step_def Let_def distinct_update)

text \<open>A key that the loop does not select, or does not meet, leaves its place untouched.\<close>

lemma ems_change_fold_other:
  assumes "key \<notin> fst ` set its \<or> key \<notin> set sel"
  shows "map_of (fold (ems_change_step sel i_sn i_str) its acc) (ems_change_uid i_sn key)
           = map_of acc (ems_change_uid i_sn key)"
  using assms
proof (induction its arbitrary: acc)
  case Nil
  then show ?case by simp
next
  case (Cons kv its)
  from Cons.prems have rest: "key \<notin> fst ` set its \<or> key \<notin> set sel" by auto
  from Cons.prems have
    "map_of (ems_change_step sel i_sn i_str kv acc) (ems_change_uid i_sn key)
       = map_of acc (ems_change_uid i_sn key)"
    by (auto simp: ems_change_step_def Let_def update_conv')
  with Cons.IH [OF rest] show ?case by simp
qed

text \<open>A selected key of the report gets its record.\<close>

lemma ems_change_fold_selected:
  assumes "distinct (map fst its)" and "(key, val) \<in> set its" and "key \<in> set sel"
  shows "map_of (fold (ems_change_step sel i_sn i_str) its acc) (ems_change_uid i_sn key)
           = Some (ems_change_record i_sn i_str key val)"
  using assms(1,2)
proof (induction its arbitrary: acc)
  case Nil
  then show ?case by simp
next
  case (Cons kv its)
  show ?case
  proof (cases "kv = (key, val)")
    case True
    with Cons.prems(1) have "key \<notin> fst ` set its" by auto
    then have "map_of (fold (ems_change_step sel i_sn i_str) its
                 (ems_change_step sel i_sn i_str kv acc)) (ems_change_uid i_sn key)
               = map_of (ems_change_step sel i_sn i_str kv acc) (ems_change_uid i_sn key)"
      by (intro ems_change_fold_other) simp
    also have "\<dots> = Some (ems_change_record i_sn i_str key val)"
      using True assms(3) by (simp add: ems_change_step_def Let_def update_conv')
    finally show ?thesis by simp
  next
    case False
    with Cons.prems have "distinct (map fst its)" "(key, val) \<in> set its" by auto
    from Cons.IH [OF this] show ?thesis by simp
  qed
qed
text \<open>
  C6. The claim: the change-report extractor emits a record for a key if and only if
  the key is one of the six allow-listed names, or starts with \<^verbatim>\<open>mppt\<close> and ends with
  \<^verbatim>\<open>Code\<close>. The key \<^verbatim>\<open>mpptCodeVersion\<close> is not allow-listed and does not end with
  \<^verbatim>\<open>Code\<close>, and the extractor emits its record: \<^verbatim>\<open>re.match\<close> anchors the pattern at the
  start of the key only.
\<close>

theorem ems_change_emits_key_not_ending_in_Code:
  "get_sensors_ems_change
     (JObj [(''JTS1_EMS_CHANGE_REPORT'', JObj [(''mpptCodeVersion'', JInt 3)])])
     [] ''J32EZEH4ZG3S0104'' ''_master''
   = Inr [(''J32EZEH4ZG3S0104_JTS1_EMS_CHANGE_REPORT_mpptCodeVersion'',
           ems_change_record ''J32EZEH4ZG3S0104'' ''_master'' ''mpptCodeVersion'' (JInt 3))]
   \<and> ''mpptCodeVersion'' \<notin> set ems_change_select
   \<and> \<not> (prefix ''mppt'' ''mpptCodeVersion'' \<and> suffix ''Code'' ''mpptCodeVersion'')"
  by (simp add: get_sensors_ems_change_def ems_change_step_def ems_change_select_def
        ems_change_uid_def re_match_mppt_Code_def dict_update_def suffix_to_prefix Let_def)

text \<open>
  C6, amended. For a key of the report, the extractor emits a record if and only if
  the key is one of the six allow-listed names, or consists of \<^verbatim>\<open>mppt\<close>, then any text
  without a newline, then \<^verbatim>\<open>Code\<close>, then any text. The record emitted for a key is
  stored under \<^verbatim>\<open>{inverter_sn}_JTS1_EMS_CHANGE_REPORT_{key}\<close>, which is its unique id;
  for a key that is not selected, the entry under that id stays what it was.
\<close>

theorem ems_change_emits_iff:
  assumes "map_of reports ''JTS1_EMS_CHANGE_REPORT'' = Some (JObj d)"
    and "distinct (map fst d)"
    and "(key, val) \<in> set d"
  shows "\<exists>res. get_sensors_ems_change (JObj reports) sensors i_sn i_str = Inr res
           \<and> map_of res (i_sn @ ''_JTS1_EMS_CHANGE_REPORT_'' @ key) =
               (if key \<in> {''bpTotalChgEnergy'', ''bpTotalDsgEnergy'', ''bpSoc'', ''bpOnlineSum'',
                           ''emsCtrlLedBright'', ''emsWordMode''}
                   \<or> (\<exists>u v. key = ''mppt'' @ u @ ''Code'' @ v \<and> CHR 0x0A \<notin> set u)
                then Some (ems_change_record i_sn i_str key val)
                else map_of sensors (i_sn @ ''_JTS1_EMS_CHANGE_REPORT_'' @ key))
           \<and> internal_unique_id (ems_change_record i_sn i_str key val)
               = i_sn @ ''_JTS1_EMS_CHANGE_REPORT_'' @ key"
proof -
  define sel where "sel = ems_change_select @ filter re_match_mppt_Code (map fst d)"
  define data where "data = fold (ems_change_step sel i_sn i_str) d []"
  have uid: "i_sn @ ''_JTS1_EMS_CHANGE_REPORT_'' @ key = ems_change_uid i_sn key"
    by (simp add: ems_change_uid_def)
  have run: "get_sensors_ems_change (JObj reports) sensors i_sn i_str
               = Inr (dict_update sensors data)"
    using assms(1) by (simp add: get_sensors_ems_change_def sel_def data_def Let_def)
  from assms(3) have "key \<in> set (map fst d)" by force
  then have selected: "key \<in> set sel \<longleftrightarrow>
      key \<in> {''bpTotalChgEnergy'', ''bpTotalDsgEnergy'', ''bpSoc'', ''bpOnlineSum'',
              ''emsCtrlLedBright'', ''emsWordMode''}
      \<or> (\<exists>u v. key = ''mppt'' @ u @ ''Code'' @ v \<and> CHR 0x0A \<notin> set u)"
    unfolding sel_def re_match_mppt_Code_iff [symmetric]
    by (auto simp: ems_change_select_def)
  have distinct_data: "distinct (map fst data)"
    unfolding data_def by (intro distinct_fold_update distinct_ems_change_step) simp_all
  have lookup: "map_of (dict_update sensors data) (ems_change_uid i_sn key) =
                  (if key \<in> set sel then Some (ems_change_record i_sn i_str key val)
                   else map_of sensors (ems_change_uid i_sn key))"
  proof (cases "key \<in> set sel")
    case True
    with assms(2,3) have "map_of data (ems_change_uid i_sn key)
                            = Some (ems_change_record i_sn i_str key val)"
      unfolding data_def by (intro ems_change_fold_selected)
    with distinct_data True show ?thesis by (simp add: map_of_dict_update_Some)
  next
    case False
    then have "map_of data (ems_change_uid i_sn key) = map_of [] (ems_change_uid i_sn key)"
      unfolding data_def by (intro ems_change_fold_other) simp
    with False show ?thesis by (simp add: map_of_dict_update_None)
  qed
  have "internal_unique_id (ems_change_record i_sn i_str key val) = ems_change_uid i_sn key"
    by (simp add: ems_change_record_def)
  with run lookup show ?thesis unfolding uid selected [symmetric] by simp
qed

theorem ems_change_emits_iff_witness:
  "map_of (inverter_root change_fixture [] []) ''JTS1_EMS_CHANGE_REPORT''
     = Some (JObj change_fixture)
   \<and> distinct (map fst change_fixture)
   \<and> (''mppt1FaultCode'', JInt 0) \<in> set change_fixture
   \<and> (''sysGridSta'', JInt 1) \<in> set change_fixture
   \<and> (\<exists>res. get_sensors_ems_change (JObj (inverter_root change_fixture [] [])) []
               ''J32EZEH4ZG3S0104'' ''_master'' = Inr res
         \<and> map_of res ''J32EZEH4ZG3S0104_JTS1_EMS_CHANGE_REPORT_mppt1FaultCode''
             = Some (ems_change_record ''J32EZEH4ZG3S0104'' ''_master'' ''mppt1FaultCode'' (JInt 0))
         \<and> map_of res ''J32EZEH4ZG3S0104_JTS1_EMS_CHANGE_REPORT_sysGridSta'' = None)"
proof -
  have rep: "map_of (inverter_root change_fixture [] []) ''JTS1_EMS_CHANGE_REPORT''
                = Some (JObj change_fixture)"
    by (simp add: inverter_root_def)
  have dist: "distinct (map fst change_fixture)"
    by (simp add: change_fixture_def)
  have fault: "(''mppt1FaultCode'', JInt 0) \<in> set change_fixture"
    and other: "(''sysGridSta'', JInt 1) \<in> set change_fixture"
    by (simp_all add: change_fixture_def)
  have "''mppt1FaultCode'' = ''mppt'' @ ''1Fault'' @ ''Code'' @ [] \<and> CHR 0x0A \<notin> set ''1Fault''"
    by simp
  then have is_code: "\<exists>u v. ''mppt1FaultCode'' = ''mppt'' @ u @ ''Code'' @ v \<and> CHR 0x0A \<notin> set u"
    by blast
  have no_code: "\<not> (\<exists>u v. ''sysGridSta'' = ''mppt'' @ u @ ''Code'' @ v \<and> CHR 0x0A \<notin> set u)"
    by simp
  from ems_change_emits_iff [OF rep dist fault, of "[]" "''J32EZEH4ZG3S0104''" "''_master''"]
    is_code
  obtain res where
    res: "get_sensors_ems_change (JObj (inverter_root change_fixture [] [])) []
            ''J32EZEH4ZG3S0104'' ''_master'' = Inr res"
    and emitted: "map_of res ''J32EZEH4ZG3S0104_JTS1_EMS_CHANGE_REPORT_mppt1FaultCode''
            = Some (ems_change_record ''J32EZEH4ZG3S0104'' ''_master'' ''mppt1FaultCode'' (JInt 0))"
    by auto
  from ems_change_emits_iff [OF rep dist other, of "[]" "''J32EZEH4ZG3S0104''" "''_master''"]
    no_code res
  have "map_of res ''J32EZEH4ZG3S0104_JTS1_EMS_CHANGE_REPORT_sysGridSta'' = None"
    by auto
  with res emitted rep dist fault other show ?thesis by blast
qed
section \<open>Exceptions pass through the assembly\<close>

lemma getattr_Inr_iff: "getattr x a = Inr v \<longleftrightarrow> x = Some v"
  by (cases x) auto

text \<open>
  What a run of \<^verbatim>\<open>_get_sensors\<close> that returns a sensor map, or the resolver's count 0
  or 2, implies: every extractor returned on the master root and, for a dual
  installation, on the slave root.
\<close>

lemma get_sensors_returns:
  assumes run: "get_sensors json_loads float_sum self response = Inr y"
    and res: "get_serial_numbers self response = Inr (self1, serials)"
    and ser: "serials = 0 \<or> serials = 2"
  shows "\<exists>m_data m_sn ms s0 s1 s2 s3.
           master_data self1 = Some m_data
           \<and> get_sensors_ems_change m_data s0 m_sn ms = Inr s1
           \<and> get_sensors_battery json_loads float_sum m_data s1 m_sn ms = Inr s2
           \<and> get_sensors_ems_heartbeat self1 m_data s2 m_sn ms = Inr s3
           \<and> (serials = 0 \<or>
                (\<exists>s_data s_sn s4 s5 s6.
                   slave_data self1 = Some s_data
                   \<and> get_sensors_ems_change s_data s3 s_sn ''_slave'' = Inr s4
                   \<and> get_sensors_battery json_loads float_sum s_data s4 s_sn ''_slave'' = Inr s5
                   \<and> get_sensors_ems_heartbeat self1 s_data s5 s_sn ''_slave'' = Inr s6))"
  using run res ser unfolding get_sensors_def Let_def
  apply (simp add: andthen_Inr_iff getattr_Inr_iff split: if_splits option.splits)
   apply (elim disjE exE conjE; simp; blast)
  apply (elim disjE exE conjE; simp; blast)
  done

lemma get_sensors_raises:
  assumes res: "get_serial_numbers self response = Inr (self1, serials)"
    and ser: "serials = 0 \<or> serials = 2"
    and place: "master_data self1 = Some i_data \<or> (serials = 2 \<and> slave_data self1 = Some i_data)"
    and fails: "(\<forall>s n t. isl (get_sensors_ems_change i_data s n t))
       \<or> (\<forall>s n t. isl (get_sensors_battery json_loads float_sum i_data s n t))
       \<or> (\<forall>s n t. isl (get_sensors_ems_heartbeat self1 i_data s n t))"
  shows "isl (get_sensors json_loads float_sum self response)"
proof (rule ccontr)
  assume "\<not> isl (get_sensors json_loads float_sum self response)"
  then obtain y where run: "get_sensors json_loads float_sum self response = Inr y"
    by (cases "get_sensors json_loads float_sum self response") auto
  from get_sensors_returns [OF run res ser] obtain m_data m_sn ms s0 s1 s2 s3 where
    m: "master_data self1 = Some m_data"
      "get_sensors_ems_change m_data s0 m_sn ms = Inr s1"
      "get_sensors_battery json_loads float_sum m_data s1 m_sn ms = Inr s2"
      "get_sensors_ems_heartbeat self1 m_data s2 m_sn ms = Inr s3"
    and s: "serials = 0 \<or>
                (\<exists>s_data s_sn s4 s5 s6.
                   slave_data self1 = Some s_data
                   \<and> get_sensors_ems_change s_data s3 s_sn ''_slave'' = Inr s4
                   \<and> get_sensors_battery json_loads float_sum s_data s4 s_sn ''_slave'' = Inr s5
                   \<and> get_sensors_ems_heartbeat self1 s_data s5 s_sn ''_slave'' = Inr s6)"
    by blast
  from place show False
  proof
    assume "master_data self1 = Some i_data"
    with m have "\<not> isl (get_sensors_ems_change i_data s0 m_sn ms)"
      "\<not> isl (get_sensors_battery json_loads float_sum i_data s1 m_sn ms)"
      "\<not> isl (get_sensors_ems_heartbeat self1 i_data s2 m_sn ms)"
      by simp_all
    with fails show False by blast
  next
    assume sl: "serials = 2 \<and> slave_data self1 = Some i_data"
    with s obtain s_sn s4 s5 s6 where
      "get_sensors_ems_change i_data s3 s_sn ''_slave'' = Inr s4"
      "get_sensors_battery json_loads float_sum i_data s4 s_sn ''_slave'' = Inr s5"
      "get_sensors_ems_heartbeat self1 i_data s5 s_sn ''_slave'' = Inr s6"
      by auto
    then have "\<not> isl (get_sensors_ems_change i_data s3 s_sn ''_slave'')"
      "\<not> isl (get_sensors_battery json_loads float_sum i_data s4 s_sn ''_slave'')"
      "\<not> isl (get_sensors_ems_heartbeat self1 i_data s5 s_sn ''_slave'')"
      by simp_all
    with fails show False by blast
  qed
qed
lemma resolver_dual_response:
  "get_serial_numbers (init ''J32EZEH4ZG3S0104'') (dual_response (JObj m) (JObj s))
     = Inr (resolved (JObj m) (JObj s), 2)"
  by (simp add: get_serial_numbers_def dual_response_def init_def resolved_def)

lemma resolved_fields [simp]:
  "sn (resolved m s) = ''J32EZEH4ZG3S0104''"
  "master_sn (resolved m s) = Some ''J32EZEH4ZG3S0104''"
  "slave_sn (resolved m s) = Some ''J32EZEH4ZG3S0042''"
  "master_data (resolved m s) = Some m"
  "slave_data (resolved m s) = Some s"
  by (simp_all add: resolved_def)

section \<open>A missing report\<close>

lemma ems_change_missing:
  "map_of reports ''JTS1_EMS_CHANGE_REPORT'' = None \<Longrightarrow>
   get_sensors_ems_change (JObj reports) sensors i_sn i_str
     = Inl (KeyError ''JTS1_EMS_CHANGE_REPORT'')"
  by (simp add: get_sensors_ems_change_def)

lemma battery_missing:
  "map_of reports ''JTS1_BP_STA_REPORT'' = None \<Longrightarrow>
   get_sensors_battery json_loads float_sum (JObj reports) sensors i_sn i_str
     = Inl (KeyError ''JTS1_BP_STA_REPORT'')"
  by (simp add: get_sensors_battery_def)

lemma ems_heartbeat_missing:
  "map_of reports ''JTS1_EMS_HEARTBEAT'' = None \<Longrightarrow>
   get_sensors_ems_heartbeat self (JObj reports) sensors i_sn i_str
     = Inl (KeyError ''JTS1_EMS_HEARTBEAT'')"
  by (simp add: get_sensors_ems_heartbeat_def)

text \<open>
  C4. The claim: when one of the three reports is absent from an inverter's report
  root, the failure is caught at the extractor and \<^verbatim>\<open>_get_sensors\<close> still returns a
  sensor map with the records of the other sections. On a dual response whose master
  root has no \<^verbatim>\<open>JTS1_BP_STA_REPORT\<close>, \<^verbatim>\<open>_get_sensors\<close> raises the \<^verbatim>\<open>KeyError\<close> of that lookup
  and returns nothing.
\<close>

theorem get_sensors_missing_report_raises:
  "get_sensors json_loads_fixture sum_left_to_right (init ''J32EZEH4ZG3S0104'') response_missing_report
     = Inl (KeyError ''JTS1_BP_STA_REPORT'')"
proof -
  let ?self1 = "resolved (JObj reports_without_bp) (JObj (inverter_root [] [] [7]))"
  have res: "get_serial_numbers (init ''J32EZEH4ZG3S0104'') response_missing_report
               = Inr (?self1, 2)"
    unfolding response_missing_report_def inverter_root_def reports_without_bp_def
    by (rule resolver_dual_response)
  obtain s0 where s0: "get_sensors_data ?self1 response_missing_report = Inr s0"
    by (simp add: get_sensors_data_def response_missing_report_def dual_response_def)
  obtain s1 where s1: "get_sensors_ems_change (JObj reports_without_bp) s0
                         ''J32EZEH4ZG3S0104'' ''_master'' = Inr s1"
    by (simp add: get_sensors_ems_change_def reports_without_bp_def Let_def)
  have "map_of reports_without_bp ''JTS1_BP_STA_REPORT'' = None"
    by (simp add: reports_without_bp_def)
  then have "get_sensors_battery json_loads_fixture sum_left_to_right (JObj reports_without_bp) s1
               ''J32EZEH4ZG3S0104'' ''_master'' = Inl (KeyError ''JTS1_BP_STA_REPORT'')"
    by (rule battery_missing)
  with res s0 s1 show ?thesis
    by (simp add: get_sensors_def)
qed

text \<open>
  C4, amended. When one of the three reports is absent from the report root of the
  master inverter, or of the slave inverter of a dual installation, the extractor of
  that report raises \<^verbatim>\<open>KeyError\<close> with the name of the report, nothing catches it, and
  \<^verbatim>\<open>_get_sensors\<close> raises instead of returning a sensor map.
\<close>

theorem missing_report_aborts_assembly:
  assumes "get_serial_numbers self response = Inr (self1, serials)"
    and "serials = 0 \<or> serials = 2"
    and "master_data self1 = Some (JObj reports)
           \<or> (serials = 2 \<and> slave_data self1 = Some (JObj reports))"
    and "report \<in> {''JTS1_EMS_CHANGE_REPORT'', ''JTS1_BP_STA_REPORT'', ''JTS1_EMS_HEARTBEAT''}"
    and "map_of reports report = None"
  shows "(if report = ''JTS1_EMS_CHANGE_REPORT''
            then get_sensors_ems_change (JObj reports) sensors i_sn i_str
          else if report = ''JTS1_BP_STA_REPORT''
            then get_sensors_battery json_loads float_sum (JObj reports) sensors i_sn i_str
          else get_sensors_ems_heartbeat self1 (JObj reports) sensors i_sn i_str)
           = Inl (KeyError report)
         \<and> (\<exists>e. get_sensors json_loads float_sum self response = Inl e)"
proof
  from assms(4) consider
    (change) "report = ''JTS1_EMS_CHANGE_REPORT''"
    | (bp) "report = ''JTS1_BP_STA_REPORT''"
    | (heartbeat) "report = ''JTS1_EMS_HEARTBEAT''"
    by blast
  then have one: "(if report = ''JTS1_EMS_CHANGE_REPORT''
            then get_sensors_ems_change (JObj reports) s n t
          else if report = ''JTS1_BP_STA_REPORT''
            then get_sensors_battery json_loads float_sum (JObj reports) s n t
          else get_sensors_ems_heartbeat self1 (JObj reports) s n t)
           = Inl (KeyError report)" for s n t
  proof cases
    case change
    with assms(5) show ?thesis by (simp add: ems_change_missing)
  next
    case bp
    with assms(5) show ?thesis by (simp add: battery_missing)
  next
    case heartbeat
    with assms(5) show ?thesis by (simp add: ems_heartbeat_missing)
  qed
  then show "(if report = ''JTS1_EMS_CHANGE_REPORT''
            then get_sensors_ems_change (JObj reports) sensors i_sn i_str
          else if report = ''JTS1_BP_STA_REPORT''
            then get_sensors_battery json_loads float_sum (JObj reports) sensors i_sn i_str
          else get_sensors_ems_heartbeat self1 (JObj reports) sensors i_sn i_str)
           = Inl (KeyError report)" .
  have "(\<forall>s n t. isl (get_sensors_ems_change (JObj reports) s n t))
       \<or> (\<forall>s n t. isl (get_sensors_battery json_loads float_sum (JObj reports) s n t))
       \<or> (\<forall>s n t. isl (get_sensors_ems_heartbeat self1 (JObj reports) s n t))"
  proof (cases "report = ''JTS1_EMS_CHANGE_REPORT''")
    case True
    with one have "\<forall>s n t. isl (get_sensors_ems_change (JObj reports) s n t)" by simp
    then show ?thesis by blast
  next
    case False
    show ?thesis
    proof (cases "report = ''JTS1_BP_STA_REPORT''")
      case True
      with one have "\<forall>s n t. isl (get_sensors_battery json_loads float_sum (JObj reports) s n t)" by simp
      then show ?thesis by blast
    next
      case no_bp: False
      with False one
      have "\<forall>s n t. isl (get_sensors_ems_heartbeat self1 (JObj reports) s n t)" by simp
      then show ?thesis by blast
    qed
  qed
  with assms(1-3) have "isl (get_sensors json_loads float_sum self response)"
    by (rule get_sensors_raises)
  then show "\<exists>e. get_sensors json_loads float_sum self response = Inl e"
    by (cases "get_sensors json_loads float_sum self response") auto
qed

theorem missing_report_aborts_assembly_witness:
  "get_serial_numbers (init ''J32EZEH4ZG3S0104'') response_missing_report
     = Inr (resolved (JObj reports_without_bp) (JObj (inverter_root [] [] [7])), 2)
   \<and> master_data (resolved (JObj reports_without_bp) (JObj (inverter_root [] [] [7])))
       = Some (JObj reports_without_bp)
   \<and> map_of reports_without_bp ''JTS1_BP_STA_REPORT'' = None
   \<and> get_sensors_battery json_loads_fixture sum_left_to_right (JObj reports_without_bp) []
        ''J32EZEH4ZG3S0104'' ''_master'' = Inl (KeyError ''JTS1_BP_STA_REPORT'')
   \<and> (\<exists>e. get_sensors json_loads_fixture sum_left_to_right (init ''J32EZEH4ZG3S0104'') response_missing_report
             = Inl e)"
proof -
  let ?self1 = "resolved (JObj reports_without_bp) (JObj (inverter_root [] [] [7]))"
  have res: "get_serial_numbers (init ''J32EZEH4ZG3S0104'') response_missing_report
               = Inr (?self1, 2)"
    unfolding response_missing_report_def inverter_root_def reports_without_bp_def
    by (rule resolver_dual_response)
  have ser: "(2::nat) = 0 \<or> (2::nat) = 2" by simp
  have place: "master_data ?self1 = Some (JObj reports_without_bp)
                 \<or> ((2::nat) = 2 \<and> slave_data ?self1 = Some (JObj reports_without_bp))"
    by (simp add: resolved_def)
  have rep: "''JTS1_BP_STA_REPORT''
               \<in> {''JTS1_EMS_CHANGE_REPORT'', ''JTS1_BP_STA_REPORT'', ''JTS1_EMS_HEARTBEAT''}"
    by simp
  have missing: "map_of reports_without_bp ''JTS1_BP_STA_REPORT'' = None"
    by (simp add: reports_without_bp_def)
  from missing_report_aborts_assembly [OF res ser place rep missing,
      of "[]" "''J32EZEH4ZG3S0104''" "''_master''" json_loads_fixture]
    res missing
  show ?thesis by simp
qed

section \<open>A battery pack that cannot be decoded\<close>

text \<open>The loop over the packs raises as soon as one of them cannot be decoded.\<close>

lemma battery_loop_raises:
  assumes "bat \<in> set batts" and "getitem d bat = Inr (JStr s)" and "json_loads s = None"
  shows "isl (battery_loop json_loads float_sum d i_sn i_str ibat batts data)"
  using assms(1)
proof (induction batts arbitrary: ibat data)
  case Nil
  then show ?case by simp
next
  case (Cons b batts)
  show ?case
  proof (cases "b = bat")
    case True
    with assms(2,3) show ?thesis by (simp add: Let_def)
  next
    case False
    with Cons.prems have "bat \<in> set batts" by simp
    then have "\<And>ibat data. isl (battery_loop json_loads float_sum d i_sn i_str ibat batts data)"
      by (rule Cons.IH)
    then show ?thesis
      by (simp add: Let_def) (intro isl_andthenI)
  qed
qed

lemma get_sensors_battery_raises:
  assumes "map_of reports ''JTS1_BP_STA_REPORT'' = Some (JObj d)"
    and "distinct (map fst d)"
    and "(bat, JStr s) \<in> set d"
    and "12 < length bat"
    and "json_loads s = None"
  shows "isl (get_sensors_battery json_loads float_sum (JObj reports) sensors i_sn i_str)"
proof -
  from assms(2,3) have "getitem (JObj d) bat = Inr (JStr s)" by simp
  moreover from assms(3,4) have "bat \<in> set (filter (\<lambda>s. 12 < length s) (map fst d))" by force
  ultimately have "isl (battery_loop json_loads float_sum (JObj d) i_sn i_str 0
                          (filter (\<lambda>s. 12 < length s) (map fst d)) [])"
    using assms(5) by (intro battery_loop_raises)
  with assms(1) show ?thesis
    by (cases "battery_loop json_loads float_sum (JObj d) i_sn i_str 0
                 (filter (\<lambda>s. 12 < length s) (map fst d)) []")
       (simp_all add: get_sensors_battery_def Let_def)
qed

text \<open>
  C5. The claim: when the text of one battery pack cannot be decoded, only that pack is
  skipped and normalization goes on. With a first pack that decodes and a second one
  that does not, \<^verbatim>\<open>_get_sensors\<close> raises the decode error and returns nothing.
\<close>

theorem get_sensors_bad_pack_raises:
  "get_sensors json_loads_fixture sum_left_to_right (init ''J32EZEH4ZG3S0104'') response_bad_pack
     = Inl JSONDecodeError"
proof -
  let ?m = "JObj (inverter_root [] packs_second_bad [])"
  let ?self1 = "resolved ?m (JObj (inverter_root [] [] [7]))"
  have res: "get_serial_numbers (init ''J32EZEH4ZG3S0104'') response_bad_pack = Inr (?self1, 2)"
    unfolding response_bad_pack_def by (rule resolver_dual_response)
  obtain s0 where s0: "get_sensors_data ?self1 response_bad_pack = Inr s0"
    by (simp add: get_sensors_data_def response_bad_pack_def dual_response_def)
  obtain s1 where s1: "get_sensors_ems_change ?m s0 ''J32EZEH4ZG3S0104'' ''_master'' = Inr s1"
    by (simp add: get_sensors_ems_change_def inverter_root_def Let_def)
  have "get_sensors_battery json_loads_fixture sum_left_to_right ?m s1 ''J32EZEH4ZG3S0104'' ''_master''
          = Inl JSONDecodeError"
    by (simp add: get_sensors_battery_def inverter_root_def packs_second_bad_def
          json_loads_fixture_def pack_text_def mean_def Let_def)
  with res s0 s1 show ?thesis
    by (simp add: get_sensors_def)
qed

text \<open>
  C5, amended. When the text of one recognized battery pack cannot be decoded, the
  decode error is not caught: the battery-pack extractor raises, so it adds no record of
  any pack, and \<^verbatim>\<open>_get_sensors\<close> raises instead of returning a sensor map.
\<close>

theorem bad_pack_aborts_assembly:
  assumes "get_serial_numbers self response = Inr (self1, serials)"
    and "serials = 0 \<or> serials = 2"
    and "master_data self1 = Some (JObj reports)
           \<or> (serials = 2 \<and> slave_data self1 = Some (JObj reports))"
    and "map_of reports ''JTS1_BP_STA_REPORT'' = Some (JObj d)"
    and "distinct (map fst d)"
    and "(bat, JStr s) \<in> set d"
    and "12 < length bat"
    and "json_loads s = None"
  shows "(\<exists>e. get_sensors_battery json_loads float_sum (JObj reports) sensors i_sn i_str = Inl e)
         \<and> (\<exists>e. get_sensors json_loads float_sum self response = Inl e)"
proof
  have "isl (get_sensors_battery json_loads float_sum (JObj reports) sensors i_sn i_str)"
    using assms(4-8) by (rule get_sensors_battery_raises)
  then show "\<exists>e. get_sensors_battery json_loads float_sum (JObj reports) sensors i_sn i_str = Inl e"
    by (cases "get_sensors_battery json_loads float_sum (JObj reports) sensors i_sn i_str") auto
  have "\<forall>s n t. isl (get_sensors_battery json_loads float_sum (JObj reports) s n t)"
    using assms(4-8) by (blast intro: get_sensors_battery_raises)
  then have "(\<forall>s n t. isl (get_sensors_ems_change (JObj reports) s n t))
       \<or> (\<forall>s n t. isl (get_sensors_battery json_loads float_sum (JObj reports) s n t))
       \<or> (\<forall>s n t. isl (get_sensors_ems_heartbeat self1 (JObj reports) s n t))"
    by blast
  with assms(1-3) have "isl (get_sensors json_loads float_sum self response)"
    by (rule get_sensors_raises)
  then show "\<exists>e. get_sensors json_loads float_sum self response = Inl e"
    by (cases "get_sensors json_loads float_sum self response") auto
qed

theorem bad_pack_aborts_assembly_witness:
  "get_serial_numbers (init ''J32EZEH4ZG3S0104'') response_bad_pack
     = Inr (resolved (JObj (inverter_root [] packs_second_bad []))
                     (JObj (inverter_root [] [] [7])), 2)
   \<and> map_of (inverter_root [] packs_second_bad []) ''JTS1_BP_STA_REPORT''
       = Some (JObj packs_second_bad)
   \<and> distinct (map fst packs_second_bad)
   \<and> (''HJ32ZDH4ZF7E0012'', JStr ''{bpTemp'') \<in> set packs_second_bad
   \<and> 12 < length ''HJ32ZDH4ZF7E0012''
   \<and> json_loads_fixture ''{bpTemp'' = None
   \<and> (\<exists>e. get_sensors_battery json_loads_fixture sum_left_to_right (JObj (inverter_root [] packs_second_bad []))
             [] ''J32EZEH4ZG3S0104'' ''_master'' = Inl e)
   \<and> (\<exists>e. get_sensors json_loads_fixture sum_left_to_right (init ''J32EZEH4ZG3S0104'') response_bad_pack = Inl e)"
proof -
  let ?reports = "inverter_root [] packs_second_bad []"
  let ?self1 = "resolved (JObj ?reports) (JObj (inverter_root [] [] [7]))"
  have res: "get_serial_numbers (init ''J32EZEH4ZG3S0104'') response_bad_pack = Inr (?self1, 2)"
    unfolding response_bad_pack_def by (rule resolver_dual_response)
  have ser: "(2::nat) = 0 \<or> (2::nat) = 2" by simp
  have place: "master_data ?self1 = Some (JObj ?reports)
                 \<or> ((2::nat) = 2 \<and> slave_data ?self1 = Some (JObj ?reports))"
    by (simp add: resolved_def)
  have bp: "map_of ?reports ''JTS1_BP_STA_REPORT'' = Some (JObj packs_second_bad)"
    by (simp add: inverter_root_def)
  have dist: "distinct (map fst packs_second_bad)"
    by (simp add: packs_second_bad_def)
  have pack: "(''HJ32ZDH4ZF7E0012'', JStr ''{bpTemp'') \<in> set packs_second_bad"
    by (simp add: packs_second_bad_def)
  have long: "12 < length ''HJ32ZDH4ZF7E0012''" by simp
  have bad: "json_loads_fixture ''{bpTemp'' = None"
    by (simp add: json_loads_fixture_def pack_text_def)
  from bad_pack_aborts_assembly [where json_loads = json_loads_fixture and s = "''{bpTemp''"
      and sensors = "[]" and i_sn = "''J32EZEH4ZG3S0104''" and i_str = "''_master''",
      OF res ser place bp dist pack long bad]
    res bp dist pack long bad
  show ?thesis by simp
qed
section \<open>The battery-pack extractor\<close>















lemma distinct_dict_update:
  "distinct (map fst sensors) \<Longrightarrow> distinct (map fst (dict_update sensors data))"
  unfolding dict_update_def by (intro distinct_fold_update distinct_update)

lemma filter_key_distinct:
  "distinct (map fst xs) \<Longrightarrow> map_of xs k = Some v \<Longrightarrow> filter (\<lambda>kv. fst kv = k) xs = [(k, v)]"
proof (induction xs)
  case Nil
  then show ?case by simp
next
  case (Cons x xs)
  show ?case
  proof (cases "fst x = k")
    case True
    with Cons.prems have "x = (k, v)" by (cases x) simp
    moreover have "filter (\<lambda>kv. fst kv = k) xs = []"
    proof -
      from True Cons.prems(1) have "k \<notin> fst ` set xs" by auto
      then have "\<forall>kv\<in>set xs. fst kv \<noteq> k" by (metis imageI)
      then show ?thesis by (simp add: filter_empty_conv)
    qed
    ultimately show ?thesis by simp
  next
    case False
    with Cons show ?thesis by (cases x) auto
  qed
qed




section \<open>The heartbeat extractor\<close>

lemma last_key_bound: "key \<noteq> None \<or> its \<noteq> [] \<Longrightarrow> last_key key its \<noteq> None"
  by (auto simp: last_key_def)

lemma distinct_phases_loop:
  "phases_loop d i_sn i_str phases st = Inr st' \<Longrightarrow> distinct (map fst (fst st))
     \<Longrightarrow> distinct (map fst (fst st'))"
proof (induction phases arbitrary: st)
  case Nil
  then show ?case by simp
next
  case (Cons phase phases)
  from Cons.prems(1) obtain its where
    rest: "phases_loop d i_sn i_str phases
             (fold (phase_step i_sn i_str phase) its (fst st), last_key (snd st) its) = Inr st'"
    by (auto simp: andthen_Inr_iff)
  have "distinct (map fst (fold (phase_step i_sn i_str phase) its (fst st)))"
    using Cons.prems(2)
    by (intro distinct_fold_update) (simp_all add: phase_step_def Let_def distinct_update)
  with Cons.IH [OF rest] show ?case by simp
qed

lemma distinct_mpptPv_fields:
  "mpptPv_fields self i_sn i_str mpptpv its st = Inr st' \<Longrightarrow> distinct (map fst (fst st))
     \<Longrightarrow> distinct (map fst (fst st'))"
proof (induction its arbitrary: st)
  case Nil
  then show ?case by simp
next
  case (Cons kv its)
  let ?data1 = "AList.update
                  (heartbeat_uid i_sn (''mpptHeartBeat_'' @ mpptpv @ ''_'' @ fst kv))
                  (mpptPv_record self i_sn i_str mpptpv (fst kv) (snd kv)) (fst st)"
  have "distinct (map fst ?data1)"
    using Cons.prems(2) by (rule distinct_update)
  moreover from Cons.prems(1) obtain s where
    "mpptPv_fields self i_sn i_str mpptpv its (?data1, s) = Inr st'"
    by (auto simp: andthen_Inr_iff Let_def split: if_splits)
  ultimately show ?case using Cons.IH by fastforce
qed

lemma distinct_mpptPv_loop:
  "mpptPv_loop self d i_sn i_str idxs st = Inr st' \<Longrightarrow> distinct (map fst (fst st))
     \<Longrightarrow> distinct (map fst (fst st'))"
proof (induction idxs arbitrary: st)
  case Nil
  then show ?case by simp
next
  case (Cons i idxs)
  from Cons.prems(1) obtain its r where
    fields: "mpptPv_fields self i_sn i_str (''mpptPv'' @ string_of_nat (i + 1)) its
               (fst st, fst (snd st)) = Inr r"
    and rest: "mpptPv_loop self d i_sn i_str idxs (fst r, snd r, last_key (snd (snd st)) its)
                 = Inr st'"
    by (auto simp: andthen_Inr_iff)
  from distinct_mpptPv_fields [OF fields] Cons.prems(2) have "distinct (map fst (fst r))" by simp
  with Cons.IH [OF rest] show ?case by simp
qed

text \<open>The loop over the phases returns when each phase is an object of the report.\<close>

lemma phases_loop_returns:
  assumes "\<forall>phase\<in>set phases. \<exists>f. getitem d phase = Inr (JObj f)"
  shows "\<exists>data' key'. phases_loop d i_sn i_str phases (data, key) = Inr (data', key')
           \<and> (key = None \<or> key' \<noteq> None)"
  using assms
proof (induction phases arbitrary: data key)
  case Nil
  then show ?case by (cases key) simp_all
next
  case (Cons phase phases)
  from Cons.prems obtain f where f: "getitem d phase = Inr (JObj f)" by auto
  from Cons.prems have "\<forall>phase\<in>set phases. \<exists>f. getitem d phase = Inr (JObj f)" by simp
  from Cons.IH [OF this, of "fold (phase_step i_sn i_str phase) f data" "last_key key f"]
  obtain data' key' where
    "phases_loop d i_sn i_str phases
       (fold (phase_step i_sn i_str phase) f data, last_key key f) = Inr (data', key')"
    "last_key key f = None \<or> key' \<noteq> None"
    by blast
  with f last_key_bound [of key f] show ?case by auto
qed

text \<open>
  The fields of one PV string: a string without \<^verbatim>\<open>pwr\<close> leaves the running sum as it is,
  a string with \<^verbatim>\<open>pwr\<close> adds its value to the running sum by one \<^verbatim>\<open>+=\<close>.
\<close>

lemma mpptPv_fields_no_pwr:
  assumes "''pwr'' \<notin> fst ` set its"
  shows "\<exists>data'. mpptPv_fields self i_sn i_str mpptpv its (data, acc) = Inr (data', acc)"
  using assms by (induction its arbitrary: data) (auto simp: Let_def)

lemma mpptPv_fields_pwr:
  assumes "distinct (map fst its)" and "map_of its ''pwr'' = Some v"
    and "float_iadd acc v = Inr acc'"
  shows "\<exists>data'. mpptPv_fields self i_sn i_str mpptpv its (data, acc) = Inr (data', acc')"
  using assms(1,2)
proof (induction its arbitrary: data)
  case Nil
  then show ?case by simp
next
  case (Cons kv its)
  show ?case
  proof (cases "fst kv = ''pwr''")
    case True
    with Cons.prems have "snd kv = v" "''pwr'' \<notin> fst ` set its"
      by (cases kv; auto)+
    with True assms(3) mpptPv_fields_no_pwr [of its self i_sn i_str mpptpv _ acc']
    show ?thesis by (simp add: Let_def)
  next
    case False
    with Cons.prems have "distinct (map fst its)" "map_of its ''pwr'' = Some v"
      by (cases kv; auto)+
    from Cons.IH [OF this] False show ?thesis by (simp add: Let_def)
  qed
qed

text \<open>
  The loop over the PV strings adds the values of \<^verbatim>\<open>pwr\<close> of the strings from index \<open>k\<close> on
  to the running sum, in the order of the strings.
\<close>

lemma mpptPv_loop_sum:
  assumes "getitem d ''mpptHeartBeat'' = Inr (JArr (JObj hb0 # others))"
    and "map_of hb0 ''mpptPv'' = Some (JArr (map JObj strings))"
    and "list_all2 (\<lambda>f v. distinct (map fst f) \<and> map_of f ''pwr'' = Some v) strings vs"
    and "k \<le> length strings"
    and "float_iadd_all acc (drop k vs) = Inr psum"
  shows "\<exists>data' key'. mpptPv_loop self d i_sn i_str [k..<length strings] (data, acc, key)
             = Inr (data', psum, key')
           \<and> (key = None \<or> key' \<noteq> None)"
  using assms(4,5)
proof (induction "length strings - k" arbitrary: k data acc key)
  case 0
  with assms(3) have "drop k vs = []"
    by (simp add: list_all2_lengthD)
  with 0 show ?case by (cases key) simp_all
next
  case (Suc n)
  then have k: "k < length strings" by simp
  with assms(3) have kp: "k < length vs"
    by (simp add: list_all2_lengthD)
  then have "drop k vs = vs ! k # drop (Suc k) vs"
    by (simp add: Cons_nth_drop_Suc)
  with Suc.prems(2) obtain acc' where
    step: "float_iadd acc (vs ! k) = Inr acc'"
    and more: "float_iadd_all acc' (drop (Suc k) vs) = Inr psum"
    by (auto simp: andthen_Inr_iff)
  from assms(3) k have "distinct (map fst (strings ! k))"
    and "map_of (strings ! k) ''pwr'' = Some (vs ! k)"
    by (auto dest: list_all2_nthD)
  from mpptPv_fields_pwr [OF this step,
      of self i_sn i_str "''mpptPv'' @ string_of_nat (k + 1)" data]
  obtain data1 where
    fields: "mpptPv_fields self i_sn i_str (''mpptPv'' @ string_of_nat (k + 1)) (strings ! k)
               (data, acc) = Inr (data1, acc')"
    by blast
  from Suc(2) k have "n = length strings - Suc k" "Suc k \<le> length strings" by simp_all
  from Suc(1) [OF this more, of data1 "last_key key (strings ! k)"]
  obtain data' key' where
    rest: "mpptPv_loop self d i_sn i_str [Suc k..<length strings]
             (data1, acc', last_key key (strings ! k))
           = Inr (data', psum, key')"
    and bound: "last_key key (strings ! k) = None \<or> key' \<noteq> None"
    by blast
  from k have "[k..<length strings] = k # [Suc k..<length strings]"
    by (rule upt_conv_Cons)
  with assms(1,2) k fields rest
  have "mpptPv_loop self d i_sn i_str [k..<length strings] (data, acc, key)
          = Inr (data', psum, key')"
    by simp
  moreover from bound last_key_bound [of key "strings ! k"] have "key = None \<or> key' \<noteq> None"
    by auto
  ultimately show ?case by blast
qed

text \<open>
  Adding integers to a float is exact as long as the magnitudes of the integers add up
  to at most \<open>2 ^ 53\<close>: every integer up to there is a binary64 number.
\<close>

lemma float_iadd_all_ints:
  assumes "\<bar>a\<bar> + sum_list (map abs ks) \<le> 2 ^ 53"
  shows "float_iadd_all (Fin (of_int a)) (map JInt ks) = Inr (Fin (of_int (a + sum_list ks)))"
  using assms
proof (induction ks arbitrary: a)
  case Nil
  then show ?case by simp
next
  case (Cons k ks)
  have "0 \<le> sum_list (map abs ks)"
    by (rule sum_list_nonneg) auto
  with Cons.prems have k: "\<bar>k\<bar> \<le> 2 ^ 53" and ak: "\<bar>a + k\<bar> \<le> 2 ^ 53"
    and rest: "\<bar>a + k\<bar> + sum_list (map abs ks) \<le> 2 ^ 53"
    by simp_all
  from ak have "round64 (of_int a + of_int k) = Fin (of_int (a + k))"
    using round64_of_int [of "a + k"] by simp
  with k have "float_iadd (Fin (of_int a)) (JInt k) = Inr (Fin (of_int (a + k)))"
    by (simp add: float_of_int_exact)
  with Cons.IH [OF rest] show ?case
    by (simp add: add.assoc)
qed

lemma heartbeat_tenth_plus_fifth:
  "round64 (3602879701896397 / 36028797018963968 + 3602879701896397 / 18014398509481984)
     = Fin (1351079888211149 / 4503599627370496)"
  by (simp add: round64_evals)

text \<open>
  C8. The claim: every heartbeat whose \<^verbatim>\<open>mpptHeartBeat[0].mpptPv\<close> holds objects that each
  have a number under \<^verbatim>\<open>pwr\<close> gets an aggregate record whose value equals the sum of these
  numbers. Neither half holds as stated. The report \<open>heartbeat_no_phases\<close> is such a
  heartbeat, with one string of power 100, yet the extractor raises \<^verbatim>\<open>KeyError\<close> on the
  phase \<^verbatim>\<open>pcsAPhase\<close>, which it reads before the strings, and emits no record. And for
  two strings with the floats \<^verbatim>\<open>0.1\<close> and \<^verbatim>\<open>0.2\<close> the value of the record is the float
  \<^verbatim>\<open>0.30000000000000004\<close>, which is not the sum of the two.
\<close>

theorem heartbeat_total_needs_phases_and_rounds:
  "map_of heartbeat_no_phases ''mpptHeartBeat''
     = Some (JArr [JObj [(''mpptPv'', JArr [JObj [(''pwr'', JInt 100)]])]])
   \<and> get_sensors_ems_heartbeat (init ''J32EZEH4ZG3S0104'')
         (JObj [(''JTS1_EMS_HEARTBEAT'', JObj heartbeat_no_phases)]) []
         ''J32EZEH4ZG3S0104'' ''_master'' = Inl (KeyError ''pcsAPhase'')
   \<and> get_sensors_ems_heartbeat (init ''J32EZEH4ZG3S0104'')
         (JObj [(''JTS1_EMS_HEARTBEAT'', JObj heartbeat_floats)]) []
         ''J32EZEH4ZG3S0104'' ''_master''
       = Inr [(''J32EZEH4ZG3S0104_JTS1_EMS_HEARTBEAT_mpptHeartBeat_mpptPv1_pwr'',
               mpptPv_record (init ''J32EZEH4ZG3S0104'') ''J32EZEH4ZG3S0104'' ''_master''
                 ''mpptPv1'' ''pwr'' (JFloat float_tenth)),
              (''J32EZEH4ZG3S0104_JTS1_EMS_HEARTBEAT_mpptHeartBeat_mpptPv2_pwr'',
               mpptPv_record (init ''J32EZEH4ZG3S0104'') ''J32EZEH4ZG3S0104'' ''_master''
                 ''mpptPv2'' ''pwr'' (JFloat float_fifth)),
              (''J32EZEH4ZG3S0104_JTS1_EMS_HEARTBEAT_mpptHeartBeat_mpptPv_pwrTotal'',
               pwrTotal_record ''J32EZEH4ZG3S0104'' ''_master''
                 (Fin (1351079888211149 / 4503599627370496)) ''pwr'')]
   \<and> float_value float_tenth + float_value float_fifth
       \<noteq> (1351079888211149 / 4503599627370496 :: rat)"
proof -
  have "get_sensors_ems_heartbeat (init ''J32EZEH4ZG3S0104'')
          (JObj [(''JTS1_EMS_HEARTBEAT'', JObj heartbeat_no_phases)]) []
          ''J32EZEH4ZG3S0104'' ''_master'' = Inl (KeyError ''pcsAPhase'')"
    by (simp add: get_sensors_ems_heartbeat_def heartbeat_no_phases_def heartbeat_step_def
          heartbeat_select_def Let_def)
  moreover have "float_iadd_all (Fin 0) [JFloat float_tenth, JFloat float_fifth]
                   = Inr (Fin (1351079888211149 / 4503599627370496))"
    using heartbeat_tenth_plus_fifth
    by (simp add: float_tenth_def float_fifth_def round64_evals)
  then have "get_sensors_ems_heartbeat (init ''J32EZEH4ZG3S0104'')
         (JObj [(''JTS1_EMS_HEARTBEAT'', JObj heartbeat_floats)]) []
         ''J32EZEH4ZG3S0104'' ''_master''
       = Inr [(''J32EZEH4ZG3S0104_JTS1_EMS_HEARTBEAT_mpptHeartBeat_mpptPv1_pwr'',
               mpptPv_record (init ''J32EZEH4ZG3S0104'') ''J32EZEH4ZG3S0104'' ''_master''
                 ''mpptPv1'' ''pwr'' (JFloat float_tenth)),
              (''J32EZEH4ZG3S0104_JTS1_EMS_HEARTBEAT_mpptHeartBeat_mpptPv2_pwr'',
               mpptPv_record (init ''J32EZEH4ZG3S0104'') ''J32EZEH4ZG3S0104'' ''_master''
                 ''mpptPv2'' ''pwr'' (JFloat float_fifth)),
              (''J32EZEH4ZG3S0104_JTS1_EMS_HEARTBEAT_mpptHeartBeat_mpptPv_pwrTotal'',
               pwrTotal_record ''J32EZEH4ZG3S0104'' ''_master''
                 (Fin (1351079888211149 / 4503599627370496)) ''pwr'')]"
    by (simp add: get_sensors_ems_heartbeat_def heartbeat_floats_def heartbeat_step_def
          heartbeat_select_def phase_step_def heartbeat_uid_def last_key_def dict_update_def
          string_of_nat.simps Let_def andthen_Inr_iff)
  ultimately show ?thesis
    by (simp add: heartbeat_no_phases_def float_tenth_def float_fifth_def)
qed

text \<open>
  C8, amended. Let the heartbeat hold the three phases \<^verbatim>\<open>pcsAPhase\<close>, \<^verbatim>\<open>pcsBPhase\<close> and
  \<^verbatim>\<open>pcsCPhase\<close> as objects, and let \<^verbatim>\<open>mpptHeartBeat[0].mpptPv\<close> hold objects that each have
  a number under \<^verbatim>\<open>pwr\<close>, no integer among them too large for a float. Then the extractor
  returns and its result holds exactly one entry under
  \<^verbatim>\<open>{inverter_sn}_JTS1_EMS_HEARTBEAT_mpptHeartBeat_mpptPv_pwrTotal\<close>: this is the unique id
  of the record, and its value is the float that adding the values of \<^verbatim>\<open>pwr\<close> to \<^verbatim>\<open>0.0\<close>
  gives, one rounded addition for each string, in the order of the strings. When the
  values are integers whose magnitudes add up to at most \<open>2 ^ 53\<close>, this float is their
  sum: 300.0 for 100, 150 and 50. The keys of each string and of the sensor dict are
  pairwise distinct, as the keys of every dict are.
\<close>

theorem heartbeat_pwr_total:
  assumes "map_of reports ''JTS1_EMS_HEARTBEAT'' = Some (JObj d)"
    and "\<forall>phase\<in>set [''pcsAPhase'', ''pcsBPhase'', ''pcsCPhase''].
           \<exists>f. map_of d phase = Some (JObj f)"
    and "map_of d ''mpptHeartBeat'' = Some (JArr (JObj hb0 # others))"
    and "map_of hb0 ''mpptPv'' = Some (JArr (map JObj strings))"
    and "list_all2 (\<lambda>f v. distinct (map fst f) \<and> map_of f ''pwr'' = Some v) strings vs"
    and "float_iadd_all (Fin 0) vs = Inr psum"
    and "distinct (map fst sensors)"
  shows "\<exists>res r. get_sensors_ems_heartbeat self (JObj reports) sensors i_sn i_str = Inr res
           \<and> filter (\<lambda>kv. fst kv = i_sn @ ''_JTS1_EMS_HEARTBEAT_mpptHeartBeat_mpptPv_pwrTotal'') res
               = [(i_sn @ ''_JTS1_EMS_HEARTBEAT_mpptHeartBeat_mpptPv_pwrTotal'', r)]
           \<and> internal_unique_id r = i_sn @ ''_JTS1_EMS_HEARTBEAT_mpptHeartBeat_mpptPv_pwrTotal''
           \<and> value' r = JFloat psum
           \<and> (\<forall>ks. vs = map JInt ks \<and> sum_list (map abs ks) \<le> 2 ^ 53
                  \<longrightarrow> value' r = JFloat (Fin (of_int (sum_list ks))))"
proof -
  let ?uid = "heartbeat_uid i_sn (''mpptHeartBeat_'' @ ''mpptPv_pwrTotal'')"
  have uid: "i_sn @ ''_JTS1_EMS_HEARTBEAT_mpptHeartBeat_mpptPv_pwrTotal'' = ?uid"
    by (simp add: heartbeat_uid_def)
  from assms(3) have "d \<noteq> []" by auto
  then have key0: "last_key None d \<noteq> None" by (simp add: last_key_bound)
  from assms(2) have "\<forall>phase\<in>set [''pcsAPhase'', ''pcsBPhase'', ''pcsCPhase''].
                        \<exists>f. getitem (JObj d) phase = Inr (JObj f)"
    by auto
  from phases_loop_returns [OF this, of i_sn i_str
      "fold (heartbeat_step i_sn i_str) d []" "last_key None d"] key0
  obtain data1 key1 where
    phases: "phases_loop (JObj d) i_sn i_str [''pcsAPhase'', ''pcsBPhase'', ''pcsCPhase'']
               (fold (heartbeat_step i_sn i_str) d [], last_key None d) = Inr (data1, key1)"
    and key1: "key1 \<noteq> None"
    by blast
  from assms(3) have hb: "getitem (JObj d) ''mpptHeartBeat'' = Inr (JArr (JObj hb0 # others))"
    by simp
  from assms(6) have "float_iadd_all (Fin 0) (drop 0 vs) = Inr psum"
    by simp
  from mpptPv_loop_sum [OF hb assms(4,5) _ this, of self i_sn i_str data1 key1] key1
  obtain data2 key2 where
    strings: "mpptPv_loop self (JObj d) i_sn i_str [0..<length strings] (data1, Fin 0, key1)
                = Inr (data2, psum, key2)"
    and "key2 \<noteq> None"
    by auto
  then obtain key where key2: "key2 = Some key" by auto
  define data where
    "data = AList.update ?uid (pwrTotal_record i_sn i_str psum key) data2"
  have run: "get_sensors_ems_heartbeat self (JObj reports) sensors i_sn i_str
               = Inr (dict_update sensors data)"
    using assms(1,4) hb phases strings key2
    by (simp add: get_sensors_ems_heartbeat_def data_def)
  have "distinct (map fst (fold (heartbeat_step i_sn i_str) d []))"
    by (intro distinct_fold_update) (simp_all add: heartbeat_step_def Let_def distinct_update)
  with distinct_phases_loop [OF phases] have "distinct (map fst data1)" by simp
  with distinct_mpptPv_loop [OF strings] have "distinct (map fst data2)" by simp
  then have "distinct (map fst data)"
    unfolding data_def by (rule distinct_update)
  moreover have "map_of data ?uid = Some (pwrTotal_record i_sn i_str psum key)"
    by (simp add: data_def update_conv')
  ultimately have "map_of (dict_update sensors data) ?uid
                     = Some (pwrTotal_record i_sn i_str psum key)"
    by (simp add: map_of_dict_update_Some)
  with distinct_dict_update [OF assms(7)]
  have one: "filter (\<lambda>kv. fst kv = ?uid) (dict_update sensors data)
          = [(?uid, pwrTotal_record i_sn i_str psum key)]"
    by (rule filter_key_distinct)
  have exact: "psum = Fin (of_int (sum_list ks))"
    if "vs = map JInt ks" "sum_list (map abs ks) \<le> 2 ^ 53" for ks
  proof -
    from that(2) have "\<bar>0\<bar> + sum_list (map abs ks) \<le> 2 ^ 53" by simp
    from float_iadd_all_ints [OF this] assms(6) that(1) show ?thesis by simp
  qed
  from run one exact show ?thesis
    unfolding uid by (simp add: pwrTotal_record_def)
qed

theorem heartbeat_pwr_total_witness:
  "map_of (inverter_root [] [] [100, 150, 50]) ''JTS1_EMS_HEARTBEAT''
     = Some (JObj (heartbeat_fixture [100, 150, 50]))
   \<and> map_of (heartbeat_fixture [100, 150, 50]) ''mpptHeartBeat''
       = Some (JArr [JObj [(''mpptPv'',
            JArr (map JObj [[(''pwr'', JInt 100)], [(''pwr'', JInt 150)], [(''pwr'', JInt 50)]]))]])
   \<and> float_iadd_all (Fin 0) (map JInt [100, 150, 50]) = Inr (Fin 300)
   \<and> sum_list (map abs [100, 150, 50 :: int]) \<le> 2 ^ 53
   \<and> (\<exists>res r. get_sensors_ems_heartbeat (init ''J32EZEH4ZG3S0104'')
                  (JObj (inverter_root [] [] [100, 150, 50])) []
                  ''J32EZEH4ZG3S0104'' ''_master'' = Inr res
         \<and> filter (\<lambda>kv. fst kv = ''J32EZEH4ZG3S0104_JTS1_EMS_HEARTBEAT_mpptHeartBeat_mpptPv_pwrTotal'')
               res
             = [(''J32EZEH4ZG3S0104_JTS1_EMS_HEARTBEAT_mpptHeartBeat_mpptPv_pwrTotal'', r)]
         \<and> internal_unique_id r
             = ''J32EZEH4ZG3S0104_JTS1_EMS_HEARTBEAT_mpptHeartBeat_mpptPv_pwrTotal''
         \<and> value' r = JFloat (Fin 300))"
proof -
  let ?strings = "[[(''pwr'', JInt 100)], [(''pwr'', JInt 150)], [(''pwr'', JInt 50)]]"
  let ?hb0 = "[(''mpptPv'', JArr (map JObj ?strings))]"
  have hb: "map_of (inverter_root [] [] [100, 150, 50]) ''JTS1_EMS_HEARTBEAT''
              = Some (JObj (heartbeat_fixture [100, 150, 50]))"
    by (simp add: inverter_root_def)
  have phases: "\<forall>phase\<in>set [''pcsAPhase'', ''pcsBPhase'', ''pcsCPhase''].
                  \<exists>f. map_of (heartbeat_fixture [100, 150, 50]) phase = Some (JObj f)"
    by (simp add: heartbeat_fixture_def)
  have first: "map_of (heartbeat_fixture [100, 150, 50]) ''mpptHeartBeat''
                 = Some (JArr (JObj ?hb0 # []))"
    by (simp add: heartbeat_fixture_def)
  have pv: "map_of ?hb0 ''mpptPv'' = Some (JArr (map JObj ?strings))"
    by simp
  have powers: "list_all2 (\<lambda>f v. distinct (map fst f) \<and> map_of f ''pwr'' = Some v)
                  ?strings (map JInt [100, 150, 50])"
    by simp
  have psum: "float_iadd_all (Fin 0) (map JInt [100, 150, 50]) = Inr (Fin 300)"
    by simp
  have small: "sum_list (map abs [100, 150, 50 :: int]) \<le> 2 ^ 53"
    by simp
  have empty: "distinct (map fst ([] :: sensors))"
    by simp
  from heartbeat_pwr_total [OF hb phases first pv powers psum empty,
      of "init ''J32EZEH4ZG3S0104''" "''J32EZEH4ZG3S0104''" "''_master''"]
  obtain res r where
    run: "get_sensors_ems_heartbeat (init ''J32EZEH4ZG3S0104'')
            (JObj (inverter_root [] [] [100, 150, 50])) []
            ''J32EZEH4ZG3S0104'' ''_master'' = Inr res"
    and one: "filter (\<lambda>kv. fst kv = ''J32EZEH4ZG3S0104''
                                @ ''_JTS1_EMS_HEARTBEAT_mpptHeartBeat_mpptPv_pwrTotal'') res
       = [(''J32EZEH4ZG3S0104'' @ ''_JTS1_EMS_HEARTBEAT_mpptHeartBeat_mpptPv_pwrTotal'', r)]"
    and uid: "internal_unique_id r
       = ''J32EZEH4ZG3S0104'' @ ''_JTS1_EMS_HEARTBEAT_mpptHeartBeat_mpptPv_pwrTotal''"
    and exact: "\<forall>ks. map JInt [100, 150, 50] = map JInt ks \<and> sum_list (map abs ks) \<le> 2 ^ 53
                  \<longrightarrow> value' r = JFloat (Fin (of_int (sum_list ks)))"
    by blast
  from exact [rule_format, of "[100, 150, 50]"] have "value' r = JFloat (Fin 300)"
    by simp
  with run one uid
  have "\<exists>res r. get_sensors_ems_heartbeat (init ''J32EZEH4ZG3S0104'')
                  (JObj (inverter_root [] [] [100, 150, 50])) []
                  ''J32EZEH4ZG3S0104'' ''_master'' = Inr res
         \<and> filter (\<lambda>kv. fst kv = ''J32EZEH4ZG3S0104_JTS1_EMS_HEARTBEAT_mpptHeartBeat_mpptPv_pwrTotal'')
               res
             = [(''J32EZEH4ZG3S0104_JTS1_EMS_HEARTBEAT_mpptHeartBeat_mpptPv_pwrTotal'', r)]
         \<and> internal_unique_id r
             = ''J32EZEH4ZG3S0104_JTS1_EMS_HEARTBEAT_mpptHeartBeat_mpptPv_pwrTotal''
         \<and> value' r = JFloat (Fin 300)"
    by auto
  with hb first psum small show ?thesis by simp
qed

end
